theory Spec2Isabelle
  imports Complex_Main "HOL-Library.Multiset"
begin

section \<open>Host built-ins\<close>

text \<open>
  The program is TypeScript. The JavaScript built-ins it calls are taken as parameters of
  the model, collected in one record:
  \<^item> \<open>Date_parse\<close> is \<^verbatim>\<open>Date.parse\<close>: milliseconds since the epoch, \<open>None\<close> for \<^verbatim>\<open>NaN\<close>;
  \<^item> \<open>toISOString\<close> is \<^verbatim>\<open>new Date(ms).toISOString()\<close>;
  \<^item> \<open>toFixed\<close> is \<^verbatim>\<open>Number.prototype.toFixed\<close>.
  A JavaScript number is a \<open>real\<close> (amounts, prices) or an \<open>int\<close> (scores, timestamps);
  \<^verbatim>\<open>NaN\<close> and the infinities are outside the model. Rounding is modelled in the decision
  loop, where the buying-power counter and the notionals are computed in IEEE 754 binary64
  (\<open>fl\<close> below); elsewhere arithmetic is over the reals. A string is a list of 8-bit
  characters.
\<close>

record host =
  Date_parse :: "string \<Rightarrow> int option"
  toISOString :: "int \<Rightarrow> string"
  toFixed :: "real \<Rightarrow> nat \<Rightarrow> string"

subsection \<open>Binary64 rounding\<close>

text \<open>
  \<open>fl x\<close> is the binary64 number nearest to the real \<open>x\<close>, ties to even, in the normal
  range (no overflow, no subnormals): with \<open>2 ^ e \<le> |x| < 2 ^ (e + 1)\<close> the result is the
  nearest multiple of \<open>2 ^ (e - 52)\<close>. A JavaScript \<^verbatim>\<open>a - b\<close> is \<open>fl (a - b)\<close> and
  \<^verbatim>\<open>a * b\<close> is \<open>fl (a * b)\<close>. A difference of two binary64 numbers that falls into the
  subnormal range is a multiple of \<open>2 ^ -1074\<close>, which neither IEEE 754 nor \<open>fl\<close> rounds.
\<close>

definition pow2 :: "int \<Rightarrow> real" where
  "pow2 e = (if 0 \<le> e then 2 ^ nat e else 1 / 2 ^ nat (- e))"

definition binade :: "real \<Rightarrow> int" where
  "binade x = \<lfloor>log 2 \<bar>x\<bar>\<rfloor>"

definition round_even :: "real \<Rightarrow> int" where
  "round_even y =
     (let f = \<lfloor>y\<rfloor>; d = y - real_of_int f
      in if d < 1 / 2 then f else if d > 1 / 2 then f + 1 else if even f then f else f + 1)"

definition fl :: "real \<Rightarrow> real" where
  "fl x = (if x = 0 then 0
           else real_of_int (round_even (x / pow2 (binade x - 52))) * pow2 (binade x - 52))"

text \<open>The reals that are binary64 numbers.\<close>

definition binary64 :: "real \<Rightarrow> bool" where
  "binary64 x \<longleftrightarrow> fl x = x"

subsection \<open>Rendering integers\<close>

text \<open>Decimal rendering of an integer, as a template literal renders it.\<close>

fun show_nat :: "nat \<Rightarrow> string" where
  "show_nat n = (if n < 10 then [char_of (48 + n)]
                 else show_nat (n div 10) @ [char_of (48 + n mod 10)])"

declare show_nat.simps [simp del]

definition show_int :: "int \<Rightarrow> string" where
  "show_int i = (if i < 0 then CHR ''-'' # show_nat (nat (- i)) else show_nat (nat i))"

section \<open>Scoring (tools/scoring)\<close>

record Filing =
  ticker :: string
  insiderName :: string
  insiderRole :: string
  transactionDate :: string
  transactionType :: string
  transactionValue :: real
  sharesTraded :: real
  pricePerShare :: real
  rawXml :: string

record ScoreBreakdown =
  roleFactor :: int
  valueFactor :: int
  clusterBonus :: int
  recencyFactor :: int

text \<open>A signal as \<^verbatim>\<open>buildSignal\<close> returns it; \<^verbatim>\<open>signalId\<close> is attached later, on persisting.\<close>

record ScoredSignal =
  filing :: Filing
  score :: int
  scoreBreakdown :: ScoreBreakdown
  breakdownSummary :: string

subsection \<open>Role scoring: the three regular expressions\<close>

text \<open>
  Each pattern of \<^verbatim>\<open>ROLE_PATTERNS\<close> has the shape \<^verbatim>\<open>/\b(A1|A2|...)\b/i\<close>, where an
  alternative is a sequence of literal words separated by \<^verbatim>\<open>\s+\<close>. An alternative is a
  list of tokens; \<open>match_toks\<close> returns every remainder the alternative can leave (the
  backtracking of \<^verbatim>\<open>\s+\<close> included), \<open>test_at\<close> is a match starting at one position with
  both word boundaries, and \<open>re_test\<close> is \<^verbatim>\<open>RegExp.prototype.test\<close>: a match at any position.
  A word character is \<^verbatim>\<open>[A-Za-z0-9_]\<close>; white space is the ASCII white space and the
  no-break space; the flag \<^verbatim>\<open>i\<close> folds the ASCII letters.
\<close>

datatype tok = Lit string | Ws

definition is_word_char :: "char \<Rightarrow> bool" where
  "is_word_char c =
     (let n = (of_char c :: nat)
      in (48 \<le> n \<and> n \<le> 57) \<or> (65 \<le> n \<and> n \<le> 90) \<or> (97 \<le> n \<and> n \<le> 122) \<or> n = 95)"

definition is_space_char :: "char \<Rightarrow> bool" where
  "is_space_char c = (let n = (of_char c :: nat) in (9 \<le> n \<and> n \<le> 13) \<or> n = 32 \<or> n = 160)"

definition upcase :: "char \<Rightarrow> char" where
  "upcase c = (let n = (of_char c :: nat) in if 97 \<le> n \<and> n \<le> 122 then char_of (n - 32) else c)"

definition ci_prefix :: "string \<Rightarrow> string \<Rightarrow> bool" where
  "ci_prefix l s = (length l \<le> length s \<and> map upcase (take (length l) s) = map upcase l)"

fun match_toks :: "tok list \<Rightarrow> string \<Rightarrow> string list" where
  "match_toks [] s = [s]"
| "match_toks (Lit l # ts) s = (if ci_prefix l s then match_toks ts (drop (length l) s) else [])"
| "match_toks (Ws # ts) s =
     concat (map (\<lambda>k. match_toks ts (drop k s)) [1 ..< Suc (length (takeWhile is_space_char s))])"

definition word_boundary :: "char option \<Rightarrow> char option \<Rightarrow> bool" where
  "word_boundary p n =
     ((case p of None \<Rightarrow> False | Some c \<Rightarrow> is_word_char c)
      \<noteq> (case n of None \<Rightarrow> False | Some c \<Rightarrow> is_word_char c))"

definition first_char :: "string \<Rightarrow> char option" where
  "first_char s = (case s of [] \<Rightarrow> None | c # _ \<Rightarrow> Some c)"

definition char_before :: "char option \<Rightarrow> string \<Rightarrow> string \<Rightarrow> char option" where
  "char_before prev s rest =
     (let used = take (length s - length rest) s in if used = [] then prev else Some (last used))"

definition test_at :: "tok list list \<Rightarrow> char option \<Rightarrow> string \<Rightarrow> bool" where
  "test_at alts prev s =
     (word_boundary prev (first_char s) \<and>
      list_ex (\<lambda>alt. list_ex (\<lambda>rest. word_boundary (char_before prev s rest) (first_char rest))
                        (match_toks alt s)) alts)"

fun re_search :: "tok list list \<Rightarrow> char option \<Rightarrow> string \<Rightarrow> bool" where
  "re_search alts prev [] = test_at alts prev []"
| "re_search alts prev (c # cs) = (test_at alts prev (c # cs) \<or> re_search alts (Some c) cs)"

definition re_test :: "tok list list \<Rightarrow> string \<Rightarrow> bool" where
  "re_test alts s = re_search alts None s"

definition exec_re :: "tok list list" where
  "exec_re = [[Lit ''CEO''], [Lit ''CHIEF'', Ws, Lit ''EXECUTIVE''], [Lit ''CFO''],
              [Lit ''CHIEF'', Ws, Lit ''FINANCIAL''], [Lit ''PRESIDENT''], [Lit ''COO''],
              [Lit ''CHIEF'', Ws, Lit ''OPERATING''], [Lit ''CTO''],
              [Lit ''CHIEF'', Ws, Lit ''TECHNOLOGY''], [Lit ''CSO''], [Lit ''CRO''],
              [Lit ''CHAIRMAN'']]"

definition director_re :: "tok list list" where
  "director_re = [[Lit ''director'']]"

definition officer_re :: "tok list list" where
  "officer_re = [[Lit ''VP''], [Lit ''VICE'', Ws, Lit ''PRES''], [Lit ''SVP''], [Lit ''EVP''],
                 [Lit ''OFFICER''], [Lit ''TREASURER''], [Lit ''SECRETARY''],
                 [Lit ''CONTROLLER''], [Lit ''COMPTROLLER'']]"

definition ROLE_PATTERNS :: "(tok list list \<times> int) list" where
  "ROLE_PATTERNS = [(exec_re, 40), (director_re, 25), (officer_re, 15)]"

fun first_match :: "(tok list list \<times> int) list \<Rightarrow> string \<Rightarrow> int" where
  "first_match [] role = 5"
| "first_match ((re, pts) # ps) role = (if re_test re role then pts else first_match ps role)"

definition scoreRole :: "string \<Rightarrow> int" where
  "scoreRole role = first_match ROLE_PATTERNS role"

subsection \<open>Value and recency scoring\<close>

definition scoreValue :: "real \<Rightarrow> int" where
  "scoreValue v =
     (if v > 1000000 then 20
      else if v > 100000 then 10
      else if v > 10000 then 5
      else 0)"

text \<open>
  \<^verbatim>\<open>utcDateString\<close> reads the clock (\<^verbatim>\<open>new Date()\<close>); the reading is the parameter
  \<open>now\<close>, in milliseconds. \<^verbatim>\<open>setUTCDate(getUTCDate() + offsetDays)\<close> moves the instant by
  whole UTC days, and \<^verbatim>\<open>slice(0, 10)\<close> keeps the date part of the ISO string.
\<close>

definition utcDateString :: "host \<Rightarrow> int \<Rightarrow> int \<Rightarrow> string" where
  "utcDateString h now offsetDays = take 10 (toISOString h (now + offsetDays * 86400000))"

definition scoreRecency :: "host \<Rightarrow> int \<Rightarrow> string \<Rightarrow> int" where
  "scoreRecency h now d =
     (if d = utcDateString h now 0 then 20
      else if d = utcDateString h now (- 1) then 10
      else 0)"

subsection \<open>Cluster detection\<close>

definition calendarDayDiff :: "host \<Rightarrow> string \<Rightarrow> string \<Rightarrow> real option" where
  "calendarDayDiff h a b =
     (case (Date_parse h a, Date_parse h b) of
        (Some x, Some y) \<Rightarrow> Some (real_of_int \<bar>x - y\<bar> / 86400000)
      | _ \<Rightarrow> None)"

text \<open>The test \<^verbatim>\<open>calendarDayDiff(a, b) <= 5\<close>; a comparison with \<^verbatim>\<open>NaN\<close> is false.\<close>

definition within5 :: "host \<Rightarrow> Filing \<Rightarrow> Filing \<Rightarrow> bool" where
  "within5 h a b =
     (case calendarDayDiff h (transactionDate a) (transactionDate b) of
        None \<Rightarrow> False
      | Some d \<Rightarrow> d \<le> 5)"

definition filingKey :: "Filing \<Rightarrow> string" where
  "filingKey f = ticker f @ [CHR 0x00] @ insiderName f @ [CHR 0x00] @ transactionDate f"

text \<open>The \<^verbatim>\<open>Map<string, Filing[]>\<close>, in insertion order.\<close>

fun group_push :: "Filing \<Rightarrow> (string \<times> Filing list) list \<Rightarrow> (string \<times> Filing list) list" where
  "group_push f [] = [(ticker f, [f])]"
| "group_push f ((k, g) # m) =
     (if k = ticker f then (k, g @ [f]) # m else (k, g) # group_push f m)"

definition byTicker :: "Filing list \<Rightarrow> (string \<times> Filing list) list" where
  "byTicker filings = foldl (\<lambda>m f. group_push f m) [] filings"

text \<open>The index pairs \<open>i < j\<close> of the nested loop, in its order.\<close>

fun pairs :: "'a list \<Rightarrow> ('a \<times> 'a) list" where
  "pairs [] = []"
| "pairs (x # xs) = map (Pair x) xs @ pairs xs"

definition pair_keys :: "host \<Rightarrow> Filing \<times> Filing \<Rightarrow> string list" where
  "pair_keys h p =
     (case p of (a, b) \<Rightarrow>
        if insiderName a \<noteq> insiderName b \<and> within5 h a b then [filingKey a, filingKey b]
        else [])"

definition group_keys :: "host \<Rightarrow> Filing list \<Rightarrow> string list" where
  "group_keys h g = (if length g < 2 then [] else concat (map (pair_keys h) (pairs g)))"

definition detectClusters :: "host \<Rightarrow> Filing list \<Rightarrow> string set" where
  "detectClusters h filings = set (concat (map (\<lambda>kg. group_keys h (snd kg)) (byTicker filings)))"

subsection \<open>Building and ranking signals\<close>

definition fmtUSD :: "host \<Rightarrow> real \<Rightarrow> string" where
  "fmtUSD h n =
     (if n \<ge> 1000000 then ''$'' @ toFixed h (n / 1000000) 2 @ ''M''
      else if n \<ge> 1000 then ''$'' @ toFixed h (n / 1000) 0 @ ''K''
      else ''$'' @ toFixed h n 0)"

fun join :: "string \<Rightarrow> string list \<Rightarrow> string" where
  "join sep [] = []"
| "join sep [x] = x"
| "join sep (x # y # ys) = x @ sep @ join sep (y # ys)"

definition buildSignal :: "host \<Rightarrow> int \<Rightarrow> Filing \<Rightarrow> bool \<Rightarrow> ScoredSignal" where
  "buildSignal h now f inCluster =
     (let rf = scoreRole (insiderRole f);
          vf = scoreValue (transactionValue f);
          cb = (if inCluster then 20 else 0);
          rc = scoreRecency h now (transactionDate f);
          raw = rf + vf + cb + rc;
          sc = min raw 100;
          capped = (raw > 100);
          summary = join '' | ''
            [''role('' @ insiderRole f @ '')=+'' @ show_int rf,
             ''value('' @ fmtUSD h (transactionValue f) @ '')=+'' @ show_int vf,
             ''cluster='' @ (if inCluster then ''+20'' else ''0''),
             ''recency('' @ transactionDate f @ '')=+'' @ show_int rc,
             ''total='' @ show_int sc
               @ (if capped then '' (capped from '' @ show_int raw @ '')'' else [])]
      in \<lparr> filing = f, score = sc,
           scoreBreakdown = \<lparr> roleFactor = rf, valueFactor = vf,
                               clusterBonus = cb, recencyFactor = rc \<rparr>,
           breakdownSummary = summary \<rparr>)"

text \<open>
  \<^verbatim>\<open>Array.prototype.sort\<close> is stable; with the comparator \<^verbatim>\<open>(a, b) => b.score - a.score\<close> it
  is modelled as a stable insertion sort: \<open>x\<close> goes before the first \<open>y\<close> that the
  comparator does not put in front of it.
\<close>

definition by_score_desc :: "ScoredSignal \<Rightarrow> ScoredSignal \<Rightarrow> int" where
  "by_score_desc a b = score b - score a"

fun insert_sorted :: "('a \<Rightarrow> 'a \<Rightarrow> int) \<Rightarrow> 'a \<Rightarrow> 'a list \<Rightarrow> 'a list" where
  "insert_sorted cmp x [] = [x]"
| "insert_sorted cmp x (y # ys) =
     (if cmp x y \<le> 0 then x # y # ys else y # insert_sorted cmp x ys)"

definition stable_sort :: "('a \<Rightarrow> 'a \<Rightarrow> int) \<Rightarrow> 'a list \<Rightarrow> 'a list" where
  "stable_sort cmp xs = foldr (insert_sorted cmp) xs []"

text \<open>\<^verbatim>\<open>xs.slice(0, end)\<close> for an integer \<open>end\<close>: a negative end counts from the back.\<close>

definition slice0 :: "'a list \<Rightarrow> int \<Rightarrow> 'a list" where
  "slice0 xs e =
     (let n = int (length xs);
          k = (if e < 0 then max (n + e) 0 else min e n)
      in take (nat k) xs)"

definition is_purchase :: "Filing \<Rightarrow> bool" where
  "is_purchase f = (transactionType f = ''P'')"

definition scoreSignals :: "host \<Rightarrow> int \<Rightarrow> Filing list \<Rightarrow> int \<Rightarrow> ScoredSignal list" where
  "scoreSignals h now filings limit =
     (let purchases = filter is_purchase filings
      in if length purchases = 0 then []
         else let clustered = detectClusters h purchases
              in slice0 (stable_sort by_score_desc
                           (map (\<lambda>f. buildSignal h now f (filingKey f \<in> clustered)) purchases))
                        limit)"

text \<open>The default \<^verbatim>\<open>limit = 10\<close>.\<close>

definition default_limit :: int where
  "default_limit = 10"

subsection \<open>A concrete host for evaluation\<close>

text \<open>
  A host that answers as JavaScript does on the first twelve days of March 2024, which is
  where every evaluation below stays: \<^verbatim>\<open>Date.parse("2024-03-01")\<close> is \<open>1709251200000\<close>, day
  \<open>19783\<close> of the epoch. A string that is not one of these twelve dates parses to \<^verbatim>\<open>NaN\<close>.
  No statement below looks at a formatted amount, and \<open>toFixed\<close> is a placeholder.
\<close>

definition march :: "(string \<times> int) list" where
  "march = [(''2024-03-01'', 19783), (''2024-03-02'', 19784), (''2024-03-03'', 19785),
            (''2024-03-04'', 19786), (''2024-03-05'', 19787), (''2024-03-06'', 19788),
            (''2024-03-07'', 19789), (''2024-03-08'', 19790), (''2024-03-09'', 19791),
            (''2024-03-10'', 19792), (''2024-03-11'', 19793), (''2024-03-12'', 19794)]"

definition march_parse :: "string \<Rightarrow> int option" where
  "march_parse s = map_option (\<lambda>d. d * 86400000) (map_of march s)"

definition digit :: "int \<Rightarrow> char" where
  "digit d = char_of (48 + d)"

definition pad2 :: "int \<Rightarrow> string" where
  "pad2 x = [digit (x div 10), digit (x mod 10)]"

definition pad3 :: "int \<Rightarrow> string" where
  "pad3 x = [digit (x div 100), digit (x div 10 mod 10), digit (x mod 10)]"

definition march_iso :: "int \<Rightarrow> string" where
  "march_iso ms =
     (let t = ms mod 86400000
      in (case map_of (map (\<lambda>(s, d). (d, s)) march) (ms div 86400000) of
            Some s \<Rightarrow> s
          | None \<Rightarrow> ''????-??-??'')
         @ ''T'' @ pad2 (t div 3600000) @ '':'' @ pad2 (t div 60000 mod 60)
         @ '':'' @ pad2 (t div 1000 mod 60) @ ''.'' @ pad3 (t mod 1000) @ ''Z'')"

definition host0 :: host where
  "host0 = \<lparr> Date_parse = march_parse, toISOString = march_iso, toFixed = (\<lambda>x d. ''?'') \<rparr>"

definition mk_filing :: "string \<Rightarrow> string \<Rightarrow> string \<Rightarrow> string \<Rightarrow> string \<Rightarrow> real \<Rightarrow> Filing" where
  "mk_filing t n r d ty v =
     \<lparr> ticker = t, insiderName = n, insiderRole = r, transactionDate = d, transactionType = ty,
       transactionValue = v, sharesTraded = 0, pricePerShare = 0, rawXml = [] \<rparr>"

text \<open>The six mock filings of the repository's scoring test, with today = 2024-03-11.\<close>

definition mockFilings :: "Filing list" where
  "mockFilings =
     [mk_filing ''MEGA'' ''Jane Doe'' ''Chief Executive Officer (CEO)'' ''2024-03-11'' ''P'' 1500000,
      mk_filing ''CLUSTER'' ''Alice Smith'' ''Director'' ''2024-03-10'' ''P'' 200000,
      mk_filing ''CLUSTER'' ''Bob Jones'' ''Director'' ''2024-03-11'' ''P'' 75000,
      mk_filing ''SMALL'' ''Carol White'' ''Vice President of Operations'' ''2024-03-01'' ''P'' 8500,
      mk_filing ''OPTS'' ''Dave Black'' ''CEO'' ''2024-03-11'' ''A'' 2000000,
      mk_filing ''SELL'' ''Eve Green'' ''CFO'' ''2024-03-11'' ''S'' 500000]"

definition now0 :: int where
  "now0 = 19793 * 86400000 + 34500000"

text \<open>The purchase records of a batch on one ticker, and the cluster bonuses that a list
  of signals gives to one insider on one ticker.\<close>

definition purchases_on :: "string \<Rightarrow> Filing list \<Rightarrow> Filing list" where
  "purchases_on t fs = filter (\<lambda>x. is_purchase x \<and> ticker x = t) fs"

definition bonus_of :: "string \<Rightarrow> string \<Rightarrow> ScoredSignal list \<Rightarrow> int list" where
  "bonus_of t n out =
     map (\<lambda>s. clusterBonus (scoreBreakdown s))
       (filter (\<lambda>s. ticker (filing s) = t \<and> insiderName (filing s) = n) out)"

text \<open>Three purchases: one on ticker "A" by an insider whose name contains NUL, and two on
  a ticker that contains NUL.\<close>

definition nul_batch :: "Filing list" where
  "nul_batch =
     [mk_filing ''A'' (''B'' @ [CHR 0x00] @ ''C'') ''CEO'' ''2024-03-10'' ''P'' 50000,
      mk_filing (''A'' @ [CHR 0x00] @ ''B'') ''C'' ''CEO'' ''2024-03-10'' ''P'' 50000,
      mk_filing (''A'' @ [CHR 0x00] @ ''B'') ''D'' ''CEO'' ''2024-03-10'' ''P'' 50000]"

text \<open>A short batch: one lone purchase, a two-insider cluster, and an award.\<close>

definition batch0 :: "Filing list" where
  "batch0 =
     [mk_filing ''MEGA'' ''Jane Doe'' ''CEO'' ''2024-03-11'' ''P'' 1500000,
      mk_filing ''CLUSTER'' ''Alice Smith'' ''Director'' ''2024-03-10'' ''P'' 200000,
      mk_filing ''CLUSTER'' ''Bob Jones'' ''Director'' ''2024-03-11'' ''P'' 75000,
      mk_filing ''OPTS'' ''Dave Black'' ''CEO'' ''2024-03-11'' ''A'' 2000000]"

section \<open>Recommendation lifecycle (tools/db, routes/approval, agents/decision)\<close>

subsection \<open>Data\<close>

datatype action = BUY | SELL | HOLD

datatype rec_status = PENDING | APPROVED | REJECTED | EXPIRED | EXECUTED

text \<open>
  A row of the table \<^verbatim>\<open>recommendations\<close>, as \<^verbatim>\<open>toRecommendation\<close> reads it. A \<^verbatim>\<open>null\<close>
  column is \<open>None\<close>. Amounts and prices are the parsed numbers.
\<close>

record Recommendation =
  rec_id :: string
  rec_ticker :: string
  action :: action
  reasoning :: string
  signalId :: int
  status :: rec_status
  notional :: real
  stopPrice :: "real option"
  takeProfitPrice :: "real option"
  createdAt :: "string option"
  resolvedAt :: "string option"

record TradeLog =
  log_ticker :: string
  side :: string
  qty :: real
  price :: real
  log_notional :: real
  alpacaOrderId :: string
  recommendationId :: string

text \<open>The two tables of the D1 database that the lifecycle writes.\<close>

record D1 =
  recommendations :: "string \<rightharpoonup> Recommendation"
  positions_tbl :: "TradeLog list"

text \<open>
  Brokerage data. \<^verbatim>\<open>parseFloat\<close> of a string field is the \<open>real\<close> it denotes; a \<^verbatim>\<open>null\<close>
  or empty field of an order is \<open>None\<close>.
\<close>

record AlpacaPosition =
  symbol :: string
  position_qty :: real
  market_value :: real

record AlpacaOrder =
  order_id :: string
  order_status :: string
  order_qty :: "real option"
  filled_avg_price :: "real option"
  filled_qty :: "real option"

text \<open>The three order-placing calls: \<^verbatim>\<open>paperBuyQty\<close>, \<^verbatim>\<open>paperBuyBracket\<close>, \<^verbatim>\<open>paperSell\<close>.\<close>

datatype order_request =
    PaperBuyQty string int
  | PaperBuyBracket string int real real
  | PaperSell string real

datatype error =
    D1Failure
  | NoRowFound string
  | AlpacaFailure string
  | ScheduleFailure string

text \<open>
  Everything outside the program that one request or run observes: the clock, the
  configuration, and what the collaborators answer. A D1 statement can fail (the store is
  unreachable, or, for the status update, the table's \<^verbatim>\<open>CHECK\<close> constraint rejects the new
  row: the schema is not part of the sources, so the constraint is the parameter
  \<open>d1_update_ok\<close>, a predicate on the row to be written). A brokerage call returns a value
  or throws, and so does the scheduling of a timer (\<open>schedule_ok\<close>, by recommendation id).
\<close>

record world =
  clock :: int
  APPROVAL_EXPIRY_HOURS :: "real option"
  POSITION_SIZE_USD :: "real option"
  d1_read_ok :: bool
  d1_update_ok :: "Recommendation \<Rightarrow> bool"
  d1_insert_ok :: bool
  d1_new_id :: "Recommendation \<Rightarrow> string"
  d1_created_at :: "string option"
  getPositionPrices :: "string list \<Rightarrow> error + (string \<rightharpoonup> real)"
  getPortfolio :: "error + AlpacaPosition list"
  submitOrder :: "order_request \<Rightarrow> error + AlpacaOrder"
  schedule_ok :: "string \<Rightarrow> bool"

text \<open>The body of a response, by its kind; the text is left out.\<close>

datatype message =
    NotFound string
  | AlreadyResolved rec_status
  | ExpiredAfter real
  | HoldNotExecutable
  | PriceUnavailable string
  | NotionalTooSmall real string real
  | NoOpenPosition string
  | OrderSubmissionFailed error
  | TradeExecuted action string
  | RejectionNotRecorded error
  | RecommendationRejected

record Response =
  code :: nat
  body :: message

definition text_response :: "message \<Rightarrow> nat \<Rightarrow> Response" where
  "text_response b c = \<lparr> code = c, body = b \<rparr>"

subsection \<open>tools/db\<close>

definition getRecommendation :: "world \<Rightarrow> D1 \<Rightarrow> string \<Rightarrow> error + Recommendation option" where
  "getRecommendation w db rid =
     (if d1_read_ok w then Inr (recommendations db rid) else Inl D1Failure)"

text \<open>
  \<^verbatim>\<open>UPDATE recommendations SET status = ?, resolved_at = ? WHERE id = ?\<close>: the row is
  selected by its id alone. A failed statement throws; so does \<^verbatim>\<open>changes === 0\<close>, which
  is the case of no row with that id.
\<close>

definition updateRecommendationStatus ::
    "world \<Rightarrow> D1 \<Rightarrow> string \<Rightarrow> rec_status \<Rightarrow> string \<Rightarrow> error + D1" where
  "updateRecommendationStatus w db rid st resolved =
     (case recommendations db rid of
        None \<Rightarrow> Inl (NoRowFound rid)
      | Some r \<Rightarrow>
          (let r' = r\<lparr> status := st, resolvedAt := Some resolved \<rparr>
           in if d1_update_ok w r'
              then Inr (db\<lparr> recommendations := (recommendations db)(rid \<mapsto> r') \<rparr>)
              else Inl D1Failure))"

definition logTrade :: "world \<Rightarrow> D1 \<Rightarrow> TradeLog \<Rightarrow> error + D1" where
  "logTrade w db trade =
     (if d1_insert_ok w then Inr (db\<lparr> positions_tbl := positions_tbl db @ [trade] \<rparr>)
      else Inl D1Failure)"

text \<open>
  \<^verbatim>\<open>insertRecommendation\<close>: the id is generated (\<^verbatim>\<open>crypto.randomUUID()\<close>, here \<open>d1_new_id\<close>);
  \<^verbatim>\<open>created_at\<close> and \<^verbatim>\<open>resolved_at\<close> are not among the inserted columns and take the
  schema's defaults.
\<close>

definition insertRecommendation :: "world \<Rightarrow> D1 \<Rightarrow> Recommendation \<Rightarrow> error + (string \<times> D1)" where
  "insertRecommendation w db r =
     (let rid = d1_new_id w r;
          row = r\<lparr> rec_id := rid, createdAt := d1_created_at w, resolvedAt := None \<rparr>
      in if d1_insert_ok w
         then Inr (rid, db\<lparr> recommendations := (recommendations db)(rid \<mapsto> row) \<rparr>)
         else Inl D1Failure)"

subsection \<open>routes/approval\<close>

definition MS_PER_HOUR :: real where
  "MS_PER_HOUR = 3600000"

text \<open>\<^verbatim>\<open>Number(env.APPROVAL_EXPIRY_HOURS) || 23\<close>: \<^verbatim>\<open>NaN\<close> (here \<open>None\<close>) and 0 give 23.\<close>

definition expiryHours :: "world \<Rightarrow> real" where
  "expiryHours w =
     (case APPROVAL_EXPIRY_HOURS w of None \<Rightarrow> 23 | Some x \<Rightarrow> if x = 0 then 23 else x)"

text \<open>
  The test \<^verbatim>\<open>checkExpiry && rec.createdAt\<close> followed by
  \<^verbatim>\<open>Date.now() - Date.parse(rec.createdAt) >= expiryHours * MS_PER_HOUR\<close>: an absent or
  empty \<^verbatim>\<open>createdAt\<close> is falsy, and an unparseable one gives \<^verbatim>\<open>NaN\<close>, which compares false.
\<close>

definition is_stale :: "host \<Rightarrow> world \<Rightarrow> Recommendation \<Rightarrow> bool" where
  "is_stale h w r =
     (case createdAt r of
        None \<Rightarrow> False
      | Some s \<Rightarrow>
          if s = [] then False
          else (case Date_parse h s of
                  None \<Rightarrow> False
                | Some t \<Rightarrow> real_of_int (clock w - t) \<ge> expiryHours w * MS_PER_HOUR))"

text \<open>
  The result of a handler: the response (\<open>Inl\<close> when the handler itself throws), the store
  it leaves, and the order-placing calls it made, each with the store as it was when the
  call was issued. A handler runs alone here: what a second request or the timer does to
  the store between two of its steps is not part of this result. The step order of the
  approval handler, further down, is stated without that restriction.
\<close>

record handled =
  response :: "error + Response"
  store :: D1
  orders :: "(order_request \<times> D1) list"

definition reply :: "Response \<Rightarrow> D1 \<Rightarrow> (order_request \<times> D1) list \<Rightarrow> handled" where
  "reply r db os = \<lparr> response = Inr r, store = db, orders = os \<rparr>"

datatype validation = Valid Recommendation string | Invalid Response

text \<open>
  \<^verbatim>\<open>validatePending\<close> returns the validation result (or throws, when the read fails) and
  the store, which it changes on the expiry path; a failure of that write is caught and
  logged.
\<close>

definition validatePending ::
    "host \<Rightarrow> world \<Rightarrow> D1 \<Rightarrow> string \<Rightarrow> bool \<Rightarrow> (error + validation) \<times> D1" where
  "validatePending h w db rid checkExpiry =
     (case getRecommendation w db rid of
        Inl e \<Rightarrow> (Inl e, db)
      | Inr None \<Rightarrow> (Inr (Invalid (text_response (NotFound rid) 400)), db)
      | Inr (Some r) \<Rightarrow>
          if status r \<noteq> PENDING
          then (Inr (Invalid (text_response (AlreadyResolved (status r)) 400)), db)
          else
            (let resolved = toISOString h (clock w)
             in if checkExpiry \<and> is_stale h w r
                then (Inr (Invalid (text_response (ExpiredAfter (expiryHours w)) 400)),
                      (case updateRecommendationStatus w db rid EXPIRED resolved of
                         Inl e \<Rightarrow> db
                       | Inr db' \<Rightarrow> db'))
                else (Inr (Valid r resolved), db)))"

definition orderToTradeLog :: "AlpacaOrder \<Rightarrow> Recommendation \<Rightarrow> TradeLog" where
  "orderToTradeLog order r =
     (let filledPrice = (case filled_avg_price order of Some p \<Rightarrow> p | None \<Rightarrow> 0);
          filledQty = (case filled_qty order of
                         Some q \<Rightarrow> q
                       | None \<Rightarrow> (case order_qty order of Some q \<Rightarrow> q | None \<Rightarrow> 0));
          effectiveNotional =
            (if filledPrice > 0 \<and> filledQty > 0 then filledPrice * filledQty else notional r)
      in \<lparr> log_ticker = rec_ticker r,
           side = (if action r = BUY then ''long'' else ''short''),
           qty = filledQty, price = filledPrice, log_notional = effectiveNotional,
           alpacaOrderId = order_id order, recommendationId = rec_id r \<rparr>)"

text \<open>
  Step 5 of \<^verbatim>\<open>handleApprove\<close>, the body of its \<^verbatim>\<open>try\<close>: it returns early with a response,
  or decides on one order request. A throw of \<^verbatim>\<open>getPositionPrices\<close> or \<^verbatim>\<open>getPortfolio\<close> is
  caught by the same \<^verbatim>\<open>catch\<close> as a throw of the order call.
\<close>

definition choose_order :: "world \<Rightarrow> Recommendation \<Rightarrow> Response + order_request" where
  "choose_order w r =
     (if action r = BUY then
        (case getPositionPrices w [rec_ticker r] of
           Inl e \<Rightarrow> Inl (text_response (OrderSubmissionFailed e) 500)
         | Inr prices \<Rightarrow>
             (case prices (rec_ticker r) of
                None \<Rightarrow> Inl (text_response (PriceUnavailable (rec_ticker r)) 500)
              | Some currentPrice \<Rightarrow>
                  if currentPrice = 0
                  then Inl (text_response (PriceUnavailable (rec_ticker r)) 500)
                  else
                    (let wholeQty = \<lfloor>notional r / currentPrice\<rfloor>
                     in if wholeQty < 1
                        then Inl (text_response
                                    (NotionalTooSmall (notional r) (rec_ticker r) currentPrice) 400)
                        else
                          (case (stopPrice r, takeProfitPrice r) of
                             (Some sp, Some tp) \<Rightarrow>
                               if sp < currentPrice \<and> tp > currentPrice
                               then Inr (PaperBuyBracket (rec_ticker r) wholeQty sp tp)
                               else Inr (PaperBuyQty (rec_ticker r) wholeQty)
                           | _ \<Rightarrow> Inr (PaperBuyQty (rec_ticker r) wholeQty)))))
      else
        (case getPortfolio w of
           Inl e \<Rightarrow> Inl (text_response (OrderSubmissionFailed e) 500)
         | Inr ps \<Rightarrow>
             (case find (\<lambda>p. symbol p = rec_ticker r) ps of
                None \<Rightarrow> Inl (text_response (NoOpenPosition (rec_ticker r)) 400)
              | Some position \<Rightarrow> Inr (PaperSell (rec_ticker r) (position_qty position)))))"

text \<open>
  Steps 6 and 7, after the order is placed: write the trade log, then mark the
  recommendation \<open>APPROVED\<close>; a failure of either write is caught and logged.
\<close>

definition record_approval :: "world \<Rightarrow> D1 \<Rightarrow> string \<Rightarrow> Recommendation \<Rightarrow> string \<Rightarrow> AlpacaOrder \<Rightarrow> D1" where
  "record_approval w db rid r resolved order =
     (let db1 = (case logTrade w db (orderToTradeLog order r) of Inl e \<Rightarrow> db | Inr d \<Rightarrow> d)
      in case updateRecommendationStatus w db1 rid APPROVED resolved of
           Inl e \<Rightarrow> db1
         | Inr d \<Rightarrow> d)"

definition handleApprove :: "host \<Rightarrow> world \<Rightarrow> D1 \<Rightarrow> string \<Rightarrow> handled" where
  "handleApprove h w db rid =
     (case validatePending h w db rid True of
        (Inl e, db1) \<Rightarrow> \<lparr> response = Inl e, store = db1, orders = [] \<rparr>
      | (Inr (Invalid resp), db1) \<Rightarrow> reply resp db1 []
      | (Inr (Valid r resolved), db1) \<Rightarrow>
          if action r = HOLD then reply (text_response HoldNotExecutable 400) db1 []
          else
            (case choose_order w r of
               Inl resp \<Rightarrow> reply resp db1 []
             | Inr req \<Rightarrow>
                 (case submitOrder w req of
                    Inl e \<Rightarrow> reply (text_response (OrderSubmissionFailed e) 500) db1 [(req, db1)]
                  | Inr order \<Rightarrow>
                      reply (text_response (TradeExecuted (action r) (rec_ticker r)) 200)
                        (record_approval w db1 rid r resolved order) [(req, db1)])))"

definition handleReject :: "host \<Rightarrow> world \<Rightarrow> D1 \<Rightarrow> string \<Rightarrow> handled" where
  "handleReject h w db rid =
     (case validatePending h w db rid False of
        (Inl e, db1) \<Rightarrow> \<lparr> response = Inl e, store = db1, orders = [] \<rparr>
      | (Inr (Invalid resp), db1) \<Rightarrow> reply resp db1 []
      | (Inr (Valid r resolved), db1) \<Rightarrow>
          (case updateRecommendationStatus w db1 rid REJECTED resolved of
             Inl e \<Rightarrow> reply (text_response (RejectionNotRecorded e) 500) db1 []
           | Inr db2 \<Rightarrow> reply (text_response RecommendationRejected 200) db2 []))"

subsection \<open>The step order of the approval handler\<close>

text \<open>
  The calls that \<^verbatim>\<open>handleApprove\<close> issues to its collaborators, in program order: the read
  of the row, the status writes, the price or portfolio lookup, the order call and the
  trade-log write. The handler awaits each call before the next, and other requests or the
  timer may write to the store in between; so the trace is given as a function of what the
  handler's own read returned (\<open>rd\<close>) and of the brokerage's answers, not of a store. A
  write is listed when it is issued, whether or not the store then accepts it: no later
  step depends on that.
\<close>

datatype step =
    ReadRow string
  | WriteStatus string rec_status string
  | FetchPrices "string list"
  | FetchPortfolio
  | PlaceOrder order_request
  | WriteTrade TradeLog

fun is_write :: "step \<Rightarrow> bool" where
  "is_write (WriteStatus rid st t) = True"
| "is_write (WriteTrade trade) = True"
| "is_write s = False"

fun is_order :: "step \<Rightarrow> bool" where
  "is_order (PlaceOrder req) = True"
| "is_order s = False"

definition approve_trace ::
    "host \<Rightarrow> world \<Rightarrow> error + Recommendation option \<Rightarrow> string \<Rightarrow> step list" where
  "approve_trace h w rd rid =
     ReadRow rid #
     (case rd of
        Inl e \<Rightarrow> []
      | Inr None \<Rightarrow> []
      | Inr (Some r) \<Rightarrow>
          if status r \<noteq> PENDING then []
          else if is_stale h w r then [WriteStatus rid EXPIRED (toISOString h (clock w))]
          else if action r = HOLD then []
          else
            (if action r = BUY then FetchPrices [rec_ticker r] else FetchPortfolio) #
            (case choose_order w r of
               Inl resp \<Rightarrow> []
             | Inr req \<Rightarrow>
                 PlaceOrder req #
                 (case submitOrder w req of
                    Inl e \<Rightarrow> []
                  | Inr order \<Rightarrow>
                      [WriteTrade (orderToTradeLog order r),
                       WriteStatus rid APPROVED (toISOString h (clock w))])))"

text \<open>The effect of one step on a store that nobody else writes to.\<close>

definition apply_step :: "world \<Rightarrow> D1 \<Rightarrow> step \<Rightarrow> D1" where
  "apply_step w db s =
     (case s of
        WriteStatus rid st t \<Rightarrow>
          (case updateRecommendationStatus w db rid st t of Inl e \<Rightarrow> db | Inr d \<Rightarrow> d)
      | WriteTrade trade \<Rightarrow> (case logTrade w db trade of Inl e \<Rightarrow> db | Inr d \<Rightarrow> d)
      | _ \<Rightarrow> db)"

subsection \<open>The expiry timer callback (DecisionAgent.expireRecommendation)\<close>

text \<open>
  The agent state is the list \<^verbatim>\<open>pendingRecommendationIds\<close>. The callback calls
  \<open>updateRecommendationStatus\<close> without reading the row first; an error is caught and
  logged.
\<close>

definition expireRecommendation ::
    "host \<Rightarrow> world \<Rightarrow> D1 \<times> string list \<Rightarrow> string \<Rightarrow> D1 \<times> string list" where
  "expireRecommendation h w st rid =
     (case st of (db, pending) \<Rightarrow>
        (case updateRecommendationStatus w db rid EXPIRED (toISOString h (clock w)) of
           Inr db' \<Rightarrow> (db', filter (\<lambda>i. i \<noteq> rid) pending)
         | Inl e \<Rightarrow> (db, pending)))"

subsection \<open>The decision loop (DecisionAgent.decide, step 4)\<close>

text \<open>A decision as \<^verbatim>\<open>LlmDecisionSchema\<close> returns it; an absent field is \<open>None\<close>.\<close>

record LlmDecision =
  d_action :: action
  d_ticker :: string
  d_reasoning :: string
  d_notional :: "real option"
  d_qty :: "real option"
  d_stopPrice :: "real option"
  d_takeProfitPrice :: "real option"

text \<open>What \<^verbatim>\<open>decide\<close> has fetched and computed when the loop starts.\<close>

record fetched =
  held :: "AlpacaPosition list"
  live_prices :: "string \<rightharpoonup> real"
  signalIdByTicker :: "string \<rightharpoonup> int"
  fallbackSignalId :: int

text \<open>How one iteration ends: one of the four \<^verbatim>\<open>continue\<close>s before the record is built, a
  failed insert, or a persisted recommendation.\<close>

datatype outcome =
    NoAction
  | SkippedAlreadyHeld
  | SkippedNotHeld
  | SkippedFunds
  | InsertFailed Recommendation
  | Created Recommendation

text \<open>The variables of the loop; \<open>aborted\<close> holds the exception that ended the run, if any.\<close>

record loop_state =
  remainingBuyingPower :: real
  loop_store :: D1
  newPendingIds :: "string list"
  outcomes :: "(LlmDecision \<times> outcome) list"
  aborted :: "error option"

text \<open>\<^verbatim>\<open>Number(env.POSITION_SIZE_USD) || 10_000\<close>.\<close>

definition default_position_size :: "world \<Rightarrow> real" where
  "default_position_size w =
     (case POSITION_SIZE_USD w of None \<Rightarrow> 10000 | Some x \<Rightarrow> if x = 0 then 10000 else x)"

definition resolve_notional :: "world \<Rightarrow> fetched \<Rightarrow> LlmDecision \<Rightarrow> real" where
  "resolve_notional w f d =
     (if d_action d = BUY
      then (case d_notional d of Some n \<Rightarrow> n | None \<Rightarrow> default_position_size w)
      else (case find (\<lambda>p. symbol p = d_ticker d) (held f) of
              Some position \<Rightarrow> market_value position
            | None \<Rightarrow>
                fl ((case d_qty d of Some q \<Rightarrow> q | None \<Rightarrow> 0)
                    * (case live_prices f (d_ticker d) of Some p \<Rightarrow> p | None \<Rightarrow> 0))))"

definition finish :: "loop_state \<Rightarrow> LlmDecision \<Rightarrow> outcome \<Rightarrow> loop_state" where
  "finish st d out = st\<lparr> outcomes := outcomes st @ [(d, out)] \<rparr>"

text \<open>
  One iteration of \<^verbatim>\<open>for (const decision of decisions)\<close>. The guard
  \<^verbatim>\<open>remainingBuyingPower < notional\<close> compares two doubles exactly; the assignment
  \<^verbatim>\<open>remainingBuyingPower -= notional\<close> rounds the difference. After a successful insert the
  loop sends the Telegram card, whose failure is caught and changes nothing here, and then
  schedules the expiry timer outside any \<^verbatim>\<open>try\<close>: if that throws, the run ends there, with
  the recommendation persisted and its id not yet pushed.
\<close>

definition decide_step :: "world \<Rightarrow> fetched \<Rightarrow> loop_state \<Rightarrow> LlmDecision \<Rightarrow> loop_state" where
  "decide_step w f st d =
     (let portfolioTickers = set (map symbol (held f))
      in if d_action d = HOLD then finish st d NoAction
         else if d_action d = BUY \<and> d_ticker d \<in> portfolioTickers
         then finish st d SkippedAlreadyHeld
         else if d_action d = SELL \<and> d_ticker d \<notin> portfolioTickers
         then finish st d SkippedNotHeld
         else
           (let n = resolve_notional w f d
            in if d_action d = BUY \<and> remainingBuyingPower st < n
               then finish st d SkippedFunds
               else
                 (let st1 = (if d_action d = BUY
                             then st\<lparr> remainingBuyingPower :=
                                        fl (remainingBuyingPower st - n) \<rparr>
                             else st);
                      r = \<lparr> rec_id = [], rec_ticker = d_ticker d, action = d_action d,
                            reasoning = d_reasoning d,
                            signalId = (case signalIdByTicker f (d_ticker d) of
                                          Some i \<Rightarrow> i
                                        | None \<Rightarrow> fallbackSignalId f),
                            status = PENDING, notional = n, stopPrice = d_stopPrice d,
                            takeProfitPrice = d_takeProfitPrice d,
                            createdAt = None, resolvedAt = None \<rparr>
                  in case insertRecommendation w (loop_store st1) r of
                       Inl e \<Rightarrow> finish st1 d (InsertFailed r)
                     | Inr (rid, db') \<Rightarrow>
                         (let st2 = finish (st1\<lparr> loop_store := db' \<rparr>) d
                                      (Created (r\<lparr> rec_id := rid \<rparr>))
                          in if schedule_ok w rid
                             then st2\<lparr> newPendingIds := newPendingIds st2 @ [rid] \<rparr>
                             else st2\<lparr> aborted := Some (ScheduleFailure rid) \<rparr>))))"

fun decide_from :: "world \<Rightarrow> fetched \<Rightarrow> loop_state \<Rightarrow> LlmDecision list \<Rightarrow> loop_state" where
  "decide_from w f st [] = st"
| "decide_from w f st (d # ds) =
     (let st' = decide_step w f st d
      in if aborted st' = None then decide_from w f st' ds else st')"

definition decide_loop ::
    "world \<Rightarrow> fetched \<Rightarrow> real \<Rightarrow> D1 \<Rightarrow> LlmDecision list \<Rightarrow> loop_state" where
  "decide_loop w f buyingPower db decisions =
     decide_from w f
       \<lparr> remainingBuyingPower = buyingPower, loop_store = db, newPendingIds = [],
         outcomes = [], aborted = None \<rparr>
       decisions"

text \<open>
  The notional a finished iteration has taken from the counter: that of a BUY that passed
  every guard (whether or not its insert then succeeded), and nothing otherwise.
\<close>

fun earmarked_by :: "outcome \<Rightarrow> real" where
  "earmarked_by (Created r) = (if action r = BUY then notional r else 0)"
| "earmarked_by (InsertFailed r) = (if action r = BUY then notional r else 0)"
| "earmarked_by _ = 0"

definition earmarked :: "loop_state \<Rightarrow> real" where
  "earmarked st = sum_list (map (\<lambda>p. earmarked_by (snd p)) (outcomes st))"

text \<open>The number of iterations that took their notional from the counter.\<close>

fun took :: "outcome \<Rightarrow> bool" where
  "took (Created r) = (action r = BUY)"
| "took (InsertFailed r) = (action r = BUY)"
| "took _ = False"

definition accepted_buys :: "loop_state \<Rightarrow> nat" where
  "accepted_buys st = length (filter (\<lambda>p. took (snd p)) (outcomes st))"

text \<open>
  The invariant of the loop: the counter and the earmarked sum are non-negative, and
  together they exceed the balance by at most one rounding per accepted BUY.
\<close>

definition within_budget :: "real \<Rightarrow> loop_state \<Rightarrow> bool" where
  "within_budget bp st \<longleftrightarrow>
     0 \<le> remainingBuyingPower st \<and> 0 \<le> earmarked st \<and>
     earmarked st + remainingBuyingPower st \<le> bp * (1 + 1 / 2 ^ 53) ^ accepted_buys st"

subsection \<open>Concrete stores and worlds for evaluation\<close>

text \<open>A BUY recommendation for AAPL, created at the start of 11 March 2024.\<close>

definition rec0 :: Recommendation where
  "rec0 = \<lparr> rec_id = ''r1'', rec_ticker = ''AAPL'', action = BUY,
            reasoning = ''cluster buy'', signalId = 1, status = PENDING, notional = 10000,
            stopPrice = None, takeProfitPrice = None,
            createdAt = Some ''2024-03-11'', resolvedAt = None \<rparr>"

definition store_of :: "Recommendation \<Rightarrow> D1" where
  "store_of r = \<lparr> recommendations = [rec_id r \<mapsto> r], positions_tbl = [] \<rparr>"

definition order0 :: AlpacaOrder where
  "order0 = \<lparr> order_id = ''o1'', order_status = ''accepted'', order_qty = Some 66,
              filled_avg_price = None, filled_qty = None \<rparr>"

text \<open>
  A world in which every collaborator answers: the clock reads 09:35 UTC on 11 March 2024,
  the expiry is 23 hours, and AAPL trades at 150.
\<close>

definition world0 :: world where
  "world0 = \<lparr> clock = now0, APPROVAL_EXPIRY_HOURS = Some 23, POSITION_SIZE_USD = Some 10000,
              d1_read_ok = True, d1_update_ok = (\<lambda>r. True), d1_insert_ok = True,
              d1_new_id = (\<lambda>r. ''id-'' @ rec_ticker r), d1_created_at = Some ''2024-03-11'',
              getPositionPrices = (\<lambda>ts. Inr [''AAPL'' \<mapsto> 150]),
              getPortfolio = Inr [],
              submitOrder = (\<lambda>req. Inr order0), schedule_ok = (\<lambda>rid. True) \<rparr>"

text \<open>The status and the resolution time that the store holds for a recommendation.\<close>

definition status_in :: "D1 \<Rightarrow> string \<Rightarrow> rec_status option" where
  "status_in db rid = map_option status (recommendations db rid)"

definition resolved_in :: "D1 \<Rightarrow> string \<Rightarrow> string option" where
  "resolved_in db rid = (case recommendations db rid of None \<Rightarrow> None | Some r \<Rightarrow> resolvedAt r)"

text \<open>The order-placing calls of a handler run, each with the status the store held for
  the recommendation when the call was issued.\<close>

definition orders_seen :: "string \<Rightarrow> handled \<Rightarrow> (order_request \<times> rec_status option) list" where
  "orders_seen rid run = map (\<lambda>(req, db). (req, status_in db rid)) (orders run)"

definition buy :: "string \<Rightarrow> real \<Rightarrow> LlmDecision" where
  "buy t n = \<lparr> d_action = BUY, d_ticker = t, d_reasoning = ''signal'', d_notional = Some n,
               d_qty = None, d_stopPrice = None, d_takeProfitPrice = None \<rparr>"

definition fetched0 :: fetched where
  "fetched0 = \<lparr> held = [], live_prices = Map.empty, signalIdByTicker = Map.empty,
                fallbackSignalId = 1 \<rparr>"

definition empty_store :: D1 where
  "empty_store = \<lparr> recommendations = Map.empty, positions_tbl = [] \<rparr>"

text \<open>The recommendation of \<open>rec0\<close> after it was approved at 01:00, and the timer firing
  23 hours after creation.\<close>

definition approved0 :: Recommendation where
  "approved0 = rec0\<lparr> status := APPROVED, resolvedAt := Some ''2024-03-11T01:00:00.000Z'' \<rparr>"

definition world_timer :: world where
  "world_timer = world0\<lparr> clock := 19793 * 86400000 + 82800000 \<rparr>"

text \<open>The same recommendation created a day earlier, so that it is 33 hours old.\<close>

definition stale0 :: Recommendation where
  "stale0 = rec0\<lparr> createdAt := Some ''2024-03-10'' \<rparr>"

text \<open>Worlds in which the approval fails: no price for AAPL, a price above the notional,
  and a brokerage that rejects the order.\<close>

definition world_noprice :: world where
  "world_noprice = world0\<lparr> getPositionPrices := (\<lambda>ts. Inr Map.empty) \<rparr>"

definition world_pricey :: world where
  "world_pricey = world0\<lparr> getPositionPrices := (\<lambda>ts. Inr [''AAPL'' \<mapsto> 20000]) \<rparr>"

definition world_down :: world where
  "world_down = world0\<lparr> submitOrder := (\<lambda>req. Inl (AlpacaFailure ''HTTP 403'')) \<rparr>"

text \<open>Three BUY decisions against a balance of 15000.\<close>

definition decisions0 :: "LlmDecision list" where
  "decisions0 = [buy ''AAA'' 10000, buy ''BBB'' 10000, buy ''CCC'' 5000]"

definition loop0 :: loop_state where
  "loop0 = decide_loop world0 fetched0 15000 empty_store decisions0"

text \<open>The same run after its first decision.\<close>

definition loop_mid :: loop_state where
  "loop_mid = decide_loop world0 fetched0 15000 empty_store [buy ''AAA'' 10000]"

text \<open>
  A balance of 100000 against a BUY of \<open>2 ^ -40\<close> (about 9.1e-13, itself a binary64 number)
  and a BUY of 100000.
\<close>

definition decisions_tiny :: "LlmDecision list" where
  "decisions_tiny = [buy ''AAA'' (1 / 2 ^ 40), buy ''BBB'' 100000]"

definition loop_tiny :: loop_state where
  "loop_tiny = decide_loop world0 fetched0 100000 empty_store decisions_tiny"

text \<open>The row that the handler of \<open>rec0\<close> reads, and the trade it logs for \<open>order0\<close>.\<close>

definition trade0 :: TradeLog where
  "trade0 = orderToTradeLog order0 rec0"

section \<open>Properties of the scoring engine\<close>

subsection \<open>Factors, sorting and selection\<close>

text \<open>The order of the patterns: the first that matches gives the points.\<close>

lemma scoreRole_tiers:
  "scoreRole r =
     (if re_test exec_re r then 40
      else if re_test director_re r then 25
      else if re_test officer_re r then 15
      else 5)"
  by (simp add: scoreRole_def ROLE_PATTERNS_def)

lemma scoreRole_cases: "scoreRole r = 40 \<or> scoreRole r = 25 \<or> scoreRole r = 15 \<or> scoreRole r = 5"
  by (simp add: scoreRole_def ROLE_PATTERNS_def)

lemma scoreValue_range: "0 \<le> scoreValue v \<and> scoreValue v \<le> 20"
  by (simp add: scoreValue_def)

lemma scoreRecency_range: "0 \<le> scoreRecency h now d \<and> scoreRecency h now d \<le> 20"
  by (simp add: scoreRecency_def)

lemma filing_buildSignal [simp]: "filing (buildSignal h now f c) = f"
  by (simp add: buildSignal_def Let_def)

lemma score_buildSignal:
  "score (buildSignal h now f c) =
     min (scoreRole (insiderRole f) + scoreValue (transactionValue f) + (if c then 20 else 0)
          + scoreRecency h now (transactionDate f)) 100"
  by (simp add: buildSignal_def Let_def)

lemma breakdown_buildSignal:
  "scoreBreakdown (buildSignal h now f c) =
     \<lparr> roleFactor = scoreRole (insiderRole f), valueFactor = scoreValue (transactionValue f),
       clusterBonus = (if c then 20 else 0),
       recencyFactor = scoreRecency h now (transactionDate f) \<rparr>"
  by (simp add: buildSignal_def Let_def)

lemma buildSignal_bounds:
  "5 \<le> score (buildSignal h now f c) \<and> score (buildSignal h now f c) \<le> 100"
  using scoreRole_cases [of "insiderRole f"] scoreValue_range [of "transactionValue f"]
    scoreRecency_range [of h now "transactionDate f"]
  by (auto simp: score_buildSignal)

lemma buildSignal_total:
  "score (buildSignal h now f c) =
     min (roleFactor (scoreBreakdown (buildSignal h now f c))
          + valueFactor (scoreBreakdown (buildSignal h now f c))
          + clusterBonus (scoreBreakdown (buildSignal h now f c))
          + recencyFactor (scoreBreakdown (buildSignal h now f c))) 100"
  by (simp add: score_buildSignal breakdown_buildSignal)

lemma buildSignal_raw:
  "roleFactor (scoreBreakdown (buildSignal h now f c))
     + valueFactor (scoreBreakdown (buildSignal h now f c))
     + clusterBonus (scoreBreakdown (buildSignal h now f c))
     + recencyFactor (scoreBreakdown (buildSignal h now f c)) \<le> 100"
  using scoreRole_cases [of "insiderRole f"] scoreValue_range [of "transactionValue f"]
    scoreRecency_range [of h now "transactionDate f"]
  by (auto simp: breakdown_buildSignal)

lemma mset_insert_sorted: "mset (insert_sorted c x ys) = add_mset x (mset ys)"
  by (induction ys) simp_all

lemma mset_stable_sort: "mset (stable_sort c xs) = mset xs"
  by (induction xs) (simp_all add: stable_sort_def mset_insert_sorted)

lemma set_stable_sort: "set (stable_sort c xs) = set xs"
  using mset_stable_sort [of c xs] by (metis set_mset_mset)

lemma length_stable_sort: "length (stable_sort c xs) = length xs"
  using mset_stable_sort [of c xs] by (metis size_mset)

lemma set_insert_sorted: "set (insert_sorted c x ys) = insert x (set ys)"
  using mset_insert_sorted [of c x ys] by (metis set_mset_add_mset_insert set_mset_mset)

lemma desc_insert_sorted:
  "sorted_wrt (\<lambda>a b. score b \<le> score a) ys \<Longrightarrow>
   sorted_wrt (\<lambda>a b. score b \<le> score a) (insert_sorted by_score_desc x ys)"
proof (induction ys)
  case Nil
  then show ?case by simp
next
  case (Cons y ys)
  show ?case
  proof (cases "by_score_desc x y \<le> 0")
    case True
    then have "score y \<le> score x" by (simp add: by_score_desc_def)
    with Cons.prems True show ?thesis by fastforce
  next
    case False
    then have "score x \<le> score y" by (simp add: by_score_desc_def)
    with Cons False show ?thesis by (auto simp: set_insert_sorted)
  qed
qed

lemma desc_stable_sort: "sorted_wrt (\<lambda>a b. score b \<le> score a) (stable_sort by_score_desc xs)"
proof (induction xs)
  case Nil
  show ?case by (simp add: stable_sort_def)
next
  case (Cons x xs)
  then show ?case using desc_insert_sorted [of "stable_sort by_score_desc xs" x]
    by (simp add: stable_sort_def)
qed

lemma slice0_take: "\<exists>k. slice0 xs e = take k xs"
  by (auto simp: slice0_def Let_def)

lemma slice0_all: "int (length xs) \<le> e \<Longrightarrow> slice0 xs e = xs"
  by (simp add: slice0_def Let_def)

lemma set_slice0: "set (slice0 xs e) \<subseteq> set xs"
  using slice0_take [of xs e] by (auto dest: in_set_takeD)

lemma desc_slice0:
  "sorted_wrt P xs \<Longrightarrow> sorted_wrt P (slice0 xs e)"
  using slice0_take [of xs e] by (auto simp: sorted_wrt_take)

lemma scoreSignals_subset:
  "set (scoreSignals h now fs limit)
     \<subseteq> (\<lambda>f. buildSignal h now f (filingKey f \<in> detectClusters h (filter is_purchase fs)))
         ` set (filter is_purchase fs)"
proof (cases "filter is_purchase fs = []")
  case True
  then show ?thesis by (simp add: scoreSignals_def)
next
  case False
  then show ?thesis
    using set_slice0 [of "stable_sort by_score_desc
        (map (\<lambda>f. buildSignal h now f (filingKey f \<in> detectClusters h (filter is_purchase fs)))
           (filter is_purchase fs))" limit]
    by (simp add: scoreSignals_def Let_def set_stable_sort)
qed

lemma scoreSignals_sorted:
  "sorted_wrt (\<lambda>a b. score b \<le> score a) (scoreSignals h now fs limit)"
  by (simp add: scoreSignals_def Let_def desc_slice0 desc_stable_sort)

lemma mset_slice0: "mset (slice0 xs e) \<subseteq># mset xs"
proof -
  obtain k where k: "slice0 xs e = take k xs" using slice0_take by blast
  have "mset xs = mset (take k xs) + mset (drop k xs)"
    by (metis append_take_drop_id mset_append)
  then show ?thesis unfolding k by simp
qed

lemma length_slice0: "0 \<le> e \<Longrightarrow> length (slice0 xs e) = min (nat e) (length xs)"
  by (auto simp: slice0_def Let_def min_def)

text \<open>The signals before selection: one per purchase record, in batch order.\<close>

lemma scoreSignals_unfold:
  "scoreSignals h now fs limit =
     slice0 (stable_sort by_score_desc
               (map (\<lambda>f. buildSignal h now f
                             (filingKey f \<in> detectClusters h (filter is_purchase fs)))
                  (filter is_purchase fs)))
            limit"
proof (cases "filter is_purchase fs = []")
  case True
  then show ?thesis by (simp add: scoreSignals_def stable_sort_def slice0_def)
next
  case False
  then show ?thesis by (simp add: scoreSignals_def Let_def)
qed

lemma filings_stable_sort:
  "mset (map filing (stable_sort by_score_desc (map (\<lambda>f. buildSignal h now f (c f)) ps)))
     = mset ps"
proof -
  let ?sigs = "map (\<lambda>f. buildSignal h now f (c f)) ps"
  have "mset (map filing (stable_sort by_score_desc ?sigs))
          = image_mset filing (mset (stable_sort by_score_desc ?sigs))"
    by (simp only: mset_map)
  also have "\<dots> = image_mset filing (mset ?sigs)"
    by (simp only: mset_stable_sort)
  also have "\<dots> = mset (map filing ?sigs)"
    by (simp only: mset_map)
  also have "map filing ?sigs = ps"
    by (simp add: comp_def)
  finally show ?thesis .
qed

lemma scoreSignals_filings:
  assumes "int (length (filter is_purchase fs)) \<le> limit"
  shows "mset (map filing (scoreSignals h now fs limit)) = mset (filter is_purchase fs)"
  using assms
  by (simp only: scoreSignals_unfold slice0_all length_stable_sort length_map filings_stable_sort)

lemma scoreSignals_filings_sub:
  "mset (map filing (scoreSignals h now fs limit)) \<subseteq># mset (filter is_purchase fs)"
proof -
  let ?sorted = "stable_sort by_score_desc
               (map (\<lambda>f. buildSignal h now f
                             (filingKey f \<in> detectClusters h (filter is_purchase fs)))
                  (filter is_purchase fs))"
  have "mset (map filing (slice0 ?sorted limit)) \<subseteq># mset (map filing ?sorted)"
    using mset_slice0 [of ?sorted limit] by (simp only: mset_map image_mset_subseteq_mono)
  then show ?thesis by (simp only: scoreSignals_unfold filings_stable_sort)
qed

lemma scoreSignals_length:
  "0 \<le> limit \<Longrightarrow>
   length (scoreSignals h now fs limit) = min (nat limit) (length (filter is_purchase fs))"
  by (simp only: scoreSignals_unfold length_slice0 length_stable_sort length_map)

subsection \<open>Cluster detection\<close>

lemma map_of_group_push:
  "map_of (group_push f m) =
     (map_of m)(ticker f \<mapsto> (case map_of m (ticker f) of None \<Rightarrow> [f] | Some g \<Rightarrow> g @ [f]))"
  by (induction f m rule: group_push.induct) (auto simp: fun_upd_twist)

lemma fst_group_push:
  "map fst (group_push f m) =
     (if ticker f \<in> set (map fst m) then map fst m else map fst m @ [ticker f])"
  by (induction f m rule: group_push.induct) auto

lemma byTicker_snoc: "byTicker (fs @ [f]) = group_push f (byTicker fs)"
  by (simp add: byTicker_def)

lemma distinct_byTicker: "distinct (map fst (byTicker fs))"
proof (induction fs rule: rev_induct)
  case Nil
  show ?case by (simp add: byTicker_def)
next
  case (snoc f fs)
  then show ?case by (simp add: byTicker_snoc fst_group_push)
qed

lemma map_of_byTicker:
  "map_of (byTicker fs) t =
     (if t \<in> ticker ` set fs then Some (filter (\<lambda>f. ticker f = t) fs) else None)"
proof (induction fs rule: rev_induct)
  case Nil
  show ?case by (simp add: byTicker_def)
next
  case (snoc f fs)
  have none: "filter (\<lambda>x. ticker x = t) fs = []" if "t \<notin> ticker ` set fs"
    using that by (auto simp: filter_empty_conv)
  show ?case
    using snoc none by (auto simp: byTicker_snoc map_of_group_push)
qed

lemma set_byTicker:
  "set (byTicker fs) = (\<lambda>t. (t, filter (\<lambda>f. ticker f = t) fs)) ` ticker ` set fs"
proof -
  have "(t, g) \<in> set (byTicker fs) \<longleftrightarrow> map_of (byTicker fs) t = Some g" for t g
    using distinct_byTicker [of fs] by simp
  then have "(t, g) \<in> set (byTicker fs)
      \<longleftrightarrow> t \<in> ticker ` set fs \<and> g = filter (\<lambda>f. ticker f = t) fs" for t g
    by (auto simp: map_of_byTicker)
  then show ?thesis by (auto simp: image_iff) 
qed

lemma detectClusters_eq:
  "detectClusters h fs = (\<Union>t \<in> ticker ` set fs. set (group_keys h (filter (\<lambda>f. ticker f = t) fs)))"
  by (auto simp: detectClusters_def set_byTicker)

lemma pairs_subset: "(a, b) \<in> set (pairs g) \<Longrightarrow> a \<in> set g \<and> b \<in> set g"
  by (induction g) auto

lemma pairs_cover:
  "a \<in> set g \<Longrightarrow> b \<in> set g \<Longrightarrow> a \<noteq> b \<Longrightarrow> (a, b) \<in> set (pairs g) \<or> (b, a) \<in> set (pairs g)"
  by (induction g) auto

lemma within5_sym: "within5 h a b = within5 h b a"
  by (simp add: within5_def calendarDayDiff_def abs_minus_commute split: option.splits)

lemma two_in_group:
  assumes "a \<in> set g" "b \<in> set g" "a \<noteq> b"
  shows "\<not> length g < 2"
proof
  assume "length g < 2"
  then have "length g = 0 \<or> length g = 1" by arith
  then show False
  proof
    assume "length g = 0" with assms show False by simp
  next
    assume "length g = 1"
    then obtain x where "g = [x]" by (cases g) auto
    with assms show False by simp
  qed
qed

lemma group_keys_pair:
  assumes "a \<in> set g" "b \<in> set g" "insiderName a \<noteq> insiderName b" "within5 h a b"
  shows "filingKey a \<in> set (group_keys h g)"
proof -
  have ne: "a \<noteq> b" using assms(3) by auto
  have big: "\<not> length g < 2" using two_in_group [OF assms(1,2) ne] .
  from pairs_cover [OF assms(1,2) ne] show ?thesis
  proof
    assume "(a, b) \<in> set (pairs g)"
    moreover have "filingKey a \<in> set (pair_keys h (a, b))"
      using assms by (simp add: pair_keys_def)
    ultimately show ?thesis using big by (auto simp: group_keys_def)
  next
    assume "(b, a) \<in> set (pairs g)"
    moreover have "filingKey a \<in> set (pair_keys h (b, a))"
      using assms within5_sym [of h a b] by (auto simp: pair_keys_def)
    ultimately show ?thesis using big by (auto simp: group_keys_def)
  qed
qed

lemma group_keys_origin:
  assumes "k \<in> set (group_keys h g)"
  shows "2 \<le> length g \<and> (\<exists>x \<in> set g. k = filingKey x)"
proof -
  from assms have big: "2 \<le> length g" by (auto simp: group_keys_def split: if_splits)
  from assms obtain p where p: "p \<in> set (pairs g)" "k \<in> set (pair_keys h p)"
    by (auto simp: group_keys_def split: if_splits)
  obtain a b where ab: "p = (a, b)" by (cases p)
  with p pairs_subset [of a b g] have "a \<in> set g" "b \<in> set g" by auto
  moreover from p ab have "k = filingKey a \<or> k = filingKey b"
    by (auto simp: pair_keys_def split: if_splits)
  ultimately show ?thesis using big by auto
qed

lemma cluster_pair:
  assumes "a \<in> set fs" "b \<in> set fs" "ticker b = ticker a"
    "insiderName b \<noteq> insiderName a" "within5 h a b"
  shows "filingKey a \<in> detectClusters h fs"
proof -
  let ?g = "filter (\<lambda>f. ticker f = ticker a) fs"
  have "a \<in> set ?g" "b \<in> set ?g" using assms by auto
  then have "filingKey a \<in> set (group_keys h ?g)"
    using group_keys_pair [of a ?g b h] assms by auto
  then show ?thesis using assms(1) by (auto simp: detectClusters_eq)
qed

lemma filingKey_ticker:
  assumes "CHR 0x00 \<notin> set (ticker a)" "CHR 0x00 \<notin> set (ticker b)" "filingKey a = filingKey b"
  shows "ticker a = ticker b"
proof -
  have "takeWhile (\<lambda>c. c \<noteq> CHR 0x00) (filingKey f) = ticker f" if "CHR 0x00 \<notin> set (ticker f)" for f
    using that by (auto simp: filingKey_def takeWhile_tail takeWhile_eq_all_conv)
  with assms show ?thesis by metis
qed

lemma cluster_solitary:
  assumes nul: "\<forall>f \<in> set fs. CHR 0x00 \<notin> set (ticker f)"
    and f: "f \<in> set fs" and alone: "filter (\<lambda>x. ticker x = ticker f) fs = [f]"
  shows "filingKey f \<notin> detectClusters h fs"
proof
  assume "filingKey f \<in> detectClusters h fs"
  then obtain t where t: "t \<in> ticker ` set fs"
      and k: "filingKey f \<in> set (group_keys h (filter (\<lambda>x. ticker x = t) fs))"
    by (auto simp: detectClusters_eq)
  from group_keys_origin [OF k] obtain x
    where big: "2 \<le> length (filter (\<lambda>x. ticker x = t) fs)"
      and x: "x \<in> set (filter (\<lambda>x. ticker x = t) fs)" and eq: "filingKey f = filingKey x"
    by auto
  from x have xin: "x \<in> set fs" and xt: "ticker x = t" by auto
  have "ticker f = ticker x"
    using filingKey_ticker [of f x] nul f xin eq by blast
  with xt alone big show False by simp
qed

subsection \<open>Evaluation on the short batch\<close>

lemma role_CEO: "scoreRole ''CEO'' = 40"
  by code_simp

lemma role_Director: "scoreRole ''Director'' = 25"
  by code_simp

lemma dates_now0:
  "utcDateString host0 now0 0 = ''2024-03-11''"
  "utcDateString host0 now0 (- 1) = ''2024-03-10''"
  by code_simp+

lemma dates_next_day:
  "utcDateString host0 (now0 + 86400000) 0 = ''2024-03-12''"
  "utcDateString host0 (now0 + 86400000) (- 1) = ''2024-03-11''"
  by code_simp+

lemma clusters0:
  "detectClusters host0 (filter is_purchase batch0)
     = {filingKey (mk_filing ''CLUSTER'' ''Alice Smith'' ''Director'' ''2024-03-10'' ''P'' 200000),
        filingKey (mk_filing ''CLUSTER'' ''Bob Jones'' ''Director'' ''2024-03-11'' ''P'' 75000)}"
  by (simp add: detectClusters_def byTicker_def batch0_def is_purchase_def mk_filing_def
      group_keys_def pair_keys_def within5_def calendarDayDiff_def host0_def march_parse_def
      march_def)

lemma batch0_scores:
  "map score (scoreSignals host0 now0 batch0 default_limit) = [80, 70, 65]"
  unfolding scoreSignals_unfold clusters0
  by (simp add: batch0_def is_purchase_def mk_filing_def filingKey_def score_buildSignal
      role_CEO role_Director scoreValue_def scoreRecency_def dates_now0
      stable_sort_def by_score_desc_def slice0_def default_limit_def)

lemma batch0_scores_next_day:
  "map score (scoreSignals host0 (now0 + 86400000) batch0 default_limit) = [70, 60, 55]"
  unfolding scoreSignals_unfold clusters0
  by (simp add: batch0_def is_purchase_def mk_filing_def filingKey_def score_buildSignal
      role_CEO role_Director scoreValue_def scoreRecency_def dates_next_day
      stable_sort_def by_score_desc_def slice0_def default_limit_def)

subsection \<open>The cluster bonus\<close>

text \<open>
  Every returned signal has a cluster bonus of 0 or 20, never a multiple. It is 20 whenever
  the batch holds another purchase on the same ticker by a different insider within 5
  calendar days. It is 0 for the only purchase on its ticker, provided no purchase of the
  batch has a NUL character in its ticker.
\<close>

lemma cluster_bonus_rule:
  assumes s: "s \<in> set (scoreSignals h now fs limit)"
  shows "clusterBonus (scoreBreakdown s) = 0 \<or> clusterBonus (scoreBreakdown s) = 20"
    and "\<exists>b \<in> set fs. is_purchase b \<and> ticker b = ticker (filing s)
           \<and> insiderName b \<noteq> insiderName (filing s) \<and> within5 h (filing s) b
         \<Longrightarrow> clusterBonus (scoreBreakdown s) = 20"
    and "\<forall>f \<in> set fs. is_purchase f \<longrightarrow> CHR 0x00 \<notin> set (ticker f)
         \<Longrightarrow> purchases_on (ticker (filing s)) fs = [filing s]
         \<Longrightarrow> clusterBonus (scoreBreakdown s) = 0"
proof -
  let ?ps = "filter is_purchase fs"
  from s obtain f where f: "f \<in> set ?ps"
      and sf: "s = buildSignal h now f (filingKey f \<in> detectClusters h ?ps)"
    using scoreSignals_subset [of h now fs limit] by blast
  have cb: "clusterBonus (scoreBreakdown s) = (if filingKey f \<in> detectClusters h ?ps then 20 else 0)"
    by (simp add: sf breakdown_buildSignal)
  have fs: "filing s = f" by (simp add: sf)
  show "clusterBonus (scoreBreakdown s) = 0 \<or> clusterBonus (scoreBreakdown s) = 20"
    by (simp add: cb)
  show "clusterBonus (scoreBreakdown s) = 20"
    if "\<exists>b \<in> set fs. is_purchase b \<and> ticker b = ticker (filing s)
           \<and> insiderName b \<noteq> insiderName (filing s) \<and> within5 h (filing s) b"
  proof -
    from that fs obtain b where "b \<in> set ?ps" "ticker b = ticker f"
      "insiderName b \<noteq> insiderName f" "within5 h f b" by auto
    with f have "filingKey f \<in> detectClusters h ?ps" by (rule cluster_pair)
    then show ?thesis by (simp add: cb)
  qed
  show "clusterBonus (scoreBreakdown s) = 0"
    if nul: "\<forall>f \<in> set fs. is_purchase f \<longrightarrow> CHR 0x00 \<notin> set (ticker f)"
      and alone: "purchases_on (ticker (filing s)) fs = [filing s]"
  proof -
    from alone fs have "filter (\<lambda>x. ticker x = ticker f) ?ps = [f]"
      by (simp add: purchases_on_def)
    moreover have "\<forall>x \<in> set ?ps. CHR 0x00 \<notin> set (ticker x)" using nul by simp
    ultimately have "filingKey f \<notin> detectClusters h ?ps"
      using cluster_solitary [of ?ps f h] f by blast
    then show ?thesis by (simp add: cb)
  qed
qed

text \<open>The window is closed at 5 days: the 1st and the 6th of March are within it, the 1st
  and the 7th are not.\<close>

lemma within5_boundary:
  "within5 host0 (mk_filing t a r ''2024-03-01'' c v) (mk_filing t b r ''2024-03-06'' c v) \<and>
   \<not> within5 host0 (mk_filing t a r ''2024-03-01'' c v) (mk_filing t b r ''2024-03-07'' c v)"
  by (simp add: within5_def calendarDayDiff_def host0_def march_parse_def march_def mk_filing_def)

text \<open>
  In \<open>batch0\<close> Alice Smith and Bob Jones buy CLUSTER a day apart and Jane Doe is alone on
  MEGA: the signal of Alice Smith carries 20, that of Jane Doe 0.
\<close>

lemma cluster_bonus_batch0:
  "CHR 0x00 \<notin> set (concat (map ticker (filter is_purchase batch0))) \<and>
   (\<exists>s \<in> set (scoreSignals host0 now0 batch0 default_limit).
      (\<exists>b \<in> set batch0. is_purchase b \<and> ticker b = ticker (filing s)
           \<and> insiderName b \<noteq> insiderName (filing s) \<and> within5 host0 (filing s) b)
      \<and> clusterBonus (scoreBreakdown s) = 20) \<and>
   (\<exists>s \<in> set (scoreSignals host0 now0 batch0 default_limit).
      purchases_on (ticker (filing s)) batch0 = [filing s] \<and> clusterBonus (scoreBreakdown s) = 0)"
proof -
  let ?out = "scoreSignals host0 now0 batch0 default_limit"
  let ?mega = "mk_filing ''MEGA'' ''Jane Doe'' ''CEO'' ''2024-03-11'' ''P'' 1500000"
  let ?alice = "mk_filing ''CLUSTER'' ''Alice Smith'' ''Director'' ''2024-03-10'' ''P'' 200000"
  let ?bob = "mk_filing ''CLUSTER'' ''Bob Jones'' ''Director'' ''2024-03-11'' ''P'' 75000"
  have nul: "\<forall>f \<in> set batch0. is_purchase f \<longrightarrow> CHR 0x00 \<notin> set (ticker f)"
    by (simp add: batch0_def mk_filing_def)
  have ps: "filter is_purchase batch0 = [?mega, ?alice, ?bob]"
    by (simp add: batch0_def is_purchase_def mk_filing_def)
  have "int (length (filter is_purchase batch0)) \<le> default_limit"
    by (simp add: ps default_limit_def)
  then have "mset (map filing ?out) = mset (filter is_purchase batch0)"
    by (rule scoreSignals_filings)
  then have "set (map filing ?out) = set (filter is_purchase batch0)"
    by (rule mset_eq_setD)
  then have img: "filing ` set ?out = set [?mega, ?alice, ?bob]"
    by (simp only: ps set_map)
  have "?alice \<in> filing ` set ?out" unfolding img by simp
  then obtain sa where sa: "sa \<in> set ?out" "filing sa = ?alice"
    by (auto elim: imageE)
  have "?mega \<in> filing ` set ?out" unfolding img by simp
  then obtain sm where sm: "sm \<in> set ?out" "filing sm = ?mega"
    by (auto elim: imageE)
  have near: "within5 host0 ?alice ?bob"
    by (simp add: within5_def calendarDayDiff_def host0_def march_parse_def march_def mk_filing_def)
  have pair: "\<exists>b \<in> set batch0. is_purchase b \<and> ticker b = ticker (filing sa)
           \<and> insiderName b \<noteq> insiderName (filing sa) \<and> within5 host0 (filing sa) b"
  proof (rule bexI [of _ ?bob])
    show "?bob \<in> set batch0" by (simp add: batch0_def)
    show "is_purchase ?bob \<and> ticker ?bob = ticker (filing sa)
           \<and> insiderName ?bob \<noteq> insiderName (filing sa) \<and> within5 host0 (filing sa) ?bob"
      using near by (simp add: sa is_purchase_def mk_filing_def)
  qed
  have alone: "purchases_on (ticker (filing sm)) batch0 = [filing sm]"
    by (simp add: sm purchases_on_def batch0_def is_purchase_def mk_filing_def)
  have "clusterBonus (scoreBreakdown sa) = 20"
    using sa(1) pair by (rule cluster_bonus_rule(2))
  moreover have "clusterBonus (scoreBreakdown sm) = 0"
    using sm(1) nul alone by (rule cluster_bonus_rule(3))
  moreover have "CHR 0x00 \<notin> set (concat (map ticker (filter is_purchase batch0)))"
    by (simp add: ps mk_filing_def)
  ultimately show ?thesis using sa(1) sm(1) pair alone by blast
qed

section \<open>Properties of binary64 rounding\<close>

lemma pow2_powr: "pow2 e = 2 powr (real_of_int e)"
  by (cases "0 \<le> e") (simp_all add: pow2_def powr_realpow [symmetric] powr_minus field_simps)

lemma pow2_pos: "0 < pow2 e"
  by (simp add: pow2_powr)

lemma pow2_add: "pow2 (a + b) = pow2 a * pow2 b"
  by (simp add: pow2_powr powr_add)

lemma binade_eq:
  assumes "pow2 k \<le> \<bar>x\<bar>" "\<bar>x\<bar> < pow2 (k + 1)"
  shows "binade x = k"
proof -
  have pos: "0 < \<bar>x\<bar>" using assms(1) pow2_pos [of k] by linarith
  have "\<lfloor>log 2 \<bar>x\<bar>\<rfloor> = k \<longleftrightarrow> 2 powr k \<le> \<bar>x\<bar> \<and> \<bar>x\<bar> < 2 powr (k + 1)"
    using pos by (intro floor_log_eq_powr_iff) auto
  then show ?thesis using assms by (simp add: binade_def pow2_powr add.commute)
qed

lemma binade_lower:
  assumes "x \<noteq> 0"
  shows "pow2 (binade x) \<le> \<bar>x\<bar>"
proof -
  have pos: "0 < \<bar>x\<bar>" using assms by simp
  have "\<lfloor>log 2 \<bar>x\<bar>\<rfloor> = binade x" by (simp add: binade_def)
  then have "2 powr (binade x) \<le> \<bar>x\<bar>"
    using floor_log_eq_powr_iff [of "\<bar>x\<bar>" 2 "binade x"] pos by simp
  then show ?thesis by (simp add: pow2_powr)
qed

text \<open>With the binade known, \<open>fl\<close> is a computation on rationals.\<close>

lemma fl_eval:
  assumes "pow2 k \<le> \<bar>x\<bar>" "\<bar>x\<bar> < pow2 (k + 1)"
  shows "fl x = real_of_int (round_even (x / pow2 (k - 52))) * pow2 (k - 52)"
proof -
  have "x \<noteq> 0" using assms(1) pow2_pos [of k] by auto
  then show ?thesis using binade_eq [OF assms] by (simp add: fl_def)
qed

lemma round_even_upper: "real_of_int (round_even y) \<le> y + 1 / 2"
  unfolding round_even_def Let_def by (auto simp: not_less) linarith+

lemma round_even_nonneg: "0 \<le> y \<Longrightarrow> 0 \<le> round_even y"
  unfolding round_even_def Let_def by auto

lemma fl_nonneg: "0 \<le> x \<Longrightarrow> 0 \<le> fl x"
  using round_even_nonneg [of "x / pow2 (binade x - 52)"] pow2_pos [of "binade x - 52"]
  by (simp add: fl_def)

text \<open>Rounding raises a non-negative number by at most the factor \<open>1 + 2 ^ -53\<close>.\<close>

lemma fl_upper:
  assumes "0 \<le> x"
  shows "fl x \<le> x * (1 + 1 / 2 ^ 53)"
proof (cases "x = 0")
  case True
  then show ?thesis by (simp add: fl_def)
next
  case False
  let ?e = "binade x - 52"
  let ?y = "x / pow2 ?e"
  have xpos: "0 < x" using assms False by simp
  have "pow2 (binade x) \<le> x" using binade_lower [OF False] xpos by simp
  moreover have "pow2 (binade x) = pow2 ?e * 2 ^ 52"
    using pow2_add [of ?e 52] by (simp add: pow2_def)
  ultimately have big: "2 ^ 52 \<le> ?y"
    using pow2_pos [of ?e] by (simp add: pos_le_divide_eq mult.commute)
  have "real_of_int (round_even ?y) \<le> ?y + 1 / 2" by (rule round_even_upper)
  also have "\<dots> \<le> ?y * (1 + 1 / 2 ^ 53)" using big by (simp add: field_simps)
  finally have r: "real_of_int (round_even ?y) \<le> ?y * (1 + 1 / 2 ^ 53)" .
  have "real_of_int (round_even ?y) * pow2 ?e \<le> (?y * (1 + 1 / 2 ^ 53)) * pow2 ?e"
    using r pow2_pos [of ?e] by (intro mult_right_mono) simp_all
  also have "(?y * (1 + 1 / 2 ^ 53)) * pow2 ?e = (?y * pow2 ?e) * (1 + 1 / 2 ^ 53)"
    by (simp only: mult.assoc mult.commute mult.left_commute)
  also have "?y * pow2 ?e = x" using pow2_pos [of ?e] by simp
  finally show ?thesis using False by (simp only: fl_def if_False)
qed

lemma fl_0: "fl 0 = 0"
  by (simp add: fl_def)

lemma fl_swallow: "fl (100000 - 1 / 2 ^ 40) = 100000"
  by (subst fl_eval [of 16]) (simp_all add: pow2_def round_even_def Let_def)

lemma round_even_int: "round_even (real_of_int k) = k"
  by (simp add: round_even_def)

lemma pow2_mono_iff: "pow2 a \<le> pow2 b \<longleftrightarrow> a \<le> b"
  by (simp add: pow2_powr)

text \<open>A whole number below \<open>2 ^ 53\<close> is a binary64 number.\<close>

lemma fl_int:
  assumes "x \<in> \<int>" "\<bar>x\<bar> < 2 ^ 53"
  shows "fl x = x"
proof (cases "x = 0")
  case True
  then show ?thesis by (simp add: fl_def)
next
  case False
  obtain k where k: "x = real_of_int k" using assms(1) by (auto elim: Ints_cases)
  define e where "e = binade x"
  have "pow2 e \<le> \<bar>x\<bar>" using binade_lower [OF False] by (simp add: e_def)
  also have "\<bar>x\<bar> \<le> pow2 53" using assms(2) by (simp add: pow2_def)
  finally have "e \<le> 53" by (simp add: pow2_mono_iff)
  moreover have "e \<noteq> 53"
  proof
    assume "e = 53"
    then have "pow2 53 \<le> \<bar>x\<bar>" using \<open>pow2 e \<le> \<bar>x\<bar>\<close> by simp
    then show False using assms(2) by (simp add: pow2_def)
  qed
  ultimately have e: "e \<le> 52" by simp
  define j where "j = nat (52 - e)"
  have p: "pow2 (e - 52) = 1 / 2 ^ j" using e by (auto simp: pow2_def j_def)
  have "x / pow2 (e - 52) = real_of_int (k * 2 ^ j)" by (simp add: p k)
  then have "round_even (x / pow2 (e - 52)) = k * 2 ^ j" by (simp only: round_even_int)
  then have "real_of_int (round_even (x / pow2 (e - 52))) * pow2 (e - 52) = x"
    by (simp add: p k)
  then show ?thesis using False by (simp add: fl_def e_def)
qed

lemma fl_5000: "fl 5000 = 5000"
  by (rule fl_int) simp_all

text \<open>The numbers of \<open>decisions_tiny\<close> are binary64 numbers.\<close>

lemma binary64_tiny: "binary64 (1 / 2 ^ 40) \<and> binary64 100000"
proof -
  have "fl (1 / 2 ^ 40) = 1 / 2 ^ 40"
    by (subst fl_eval [of "-40"]) (simp_all add: pow2_def round_even_def)
  moreover have "fl 100000 = 100000" by (rule fl_int) simp_all
  ultimately show ?thesis by (simp only: binary64_def simp_thms)
qed

section \<open>Properties of the recommendation lifecycle\<close>

subsection \<open>The status update and the validation\<close>

lemma update_overwrites:
  assumes "recommendations db rid = Some r"
    and "d1_update_ok w (r\<lparr> status := st, resolvedAt := Some t \<rparr>)"
  shows "updateRecommendationStatus w db rid st t
           = Inr (db\<lparr> recommendations :=
                       (recommendations db)(rid \<mapsto> r\<lparr> status := st, resolvedAt := Some t \<rparr>) \<rparr>)"
  using assms by (simp add: updateRecommendationStatus_def)

lemma update_result:
  assumes "updateRecommendationStatus w db rid st t = Inr db'"
  shows "status_in db' rid = Some st \<and> resolved_in db' rid = Some t"
  using assms
  by (auto simp: updateRecommendationStatus_def status_in_def resolved_in_def Let_def
      split: option.splits if_splits)

lemma validatePending_Valid:
  assumes "validatePending h w db rid c = (Inr (Valid r t), db1)"
  shows "db1 = db \<and> d1_read_ok w \<and> recommendations db rid = Some r \<and> status r = PENDING
         \<and> t = toISOString h (clock w) \<and> \<not> (c \<and> is_stale h w r)"
  using assms
  by (auto simp: validatePending_def getRecommendation_def Let_def
      split: if_splits option.splits)

lemma validatePending_fresh:
  assumes "d1_read_ok w" "recommendations db rid = Some r" "status r = PENDING"
    "\<not> (c \<and> is_stale h w r)"
  shows "validatePending h w db rid c = (Inr (Valid r (toISOString h (clock w))), db)"
  using assms by (auto simp: validatePending_def getRecommendation_def Let_def)

lemma validatePending_stale:
  assumes "d1_read_ok w" "recommendations db rid = Some r" "status r = PENDING"
    "is_stale h w r"
  shows "validatePending h w db rid True =
           (Inr (Invalid (text_response (ExpiredAfter (expiryHours w)) 400)),
            (case updateRecommendationStatus w db rid EXPIRED (toISOString h (clock w)) of
               Inl e \<Rightarrow> db | Inr db' \<Rightarrow> db'))"
  using assms by (simp add: validatePending_def getRecommendation_def Let_def)

lemma validatePending_Invalid_store:
  assumes "validatePending h w db rid c = (Inr (Invalid resp), db1)"
  shows "db1 = db \<or> status_in db1 rid = Some EXPIRED"
  using assms update_result [of w db rid EXPIRED "toISOString h (clock w)"]
  by (auto simp: validatePending_def getRecommendation_def Let_def
      split: if_splits option.splits sum.splits)

lemma validatePending_Inl_store:
  assumes "validatePending h w db rid c = (Inl e, db1)"
  shows "db1 = db"
  using assms
  by (auto simp: validatePending_def getRecommendation_def Let_def
      split: if_splits option.splits sum.splits)

lemma is_stale_iff:
  assumes "createdAt r = Some s" "s \<noteq> []" "Date_parse h s = Some t"
  shows "is_stale h w r \<longleftrightarrow> real_of_int (clock w - t) \<ge> expiryHours w * MS_PER_HOUR"
  using assms by (simp add: is_stale_def)

lemma resolved_routes_noop:
  assumes "recommendations db rid = Some r" "status r \<noteq> PENDING"
  shows "store (handleApprove h w db rid) = db \<and> orders (handleApprove h w db rid) = []
         \<and> store (handleReject h w db rid) = db"
  using assms
  by (auto simp: handleApprove_def handleReject_def validatePending_def getRecommendation_def
      reply_def Let_def)

lemma handleApprove_valid:
  assumes "d1_read_ok w" "recommendations db rid = Some r" "status r = PENDING"
    "\<not> is_stale h w r"
  shows "handleApprove h w db rid =
     (if action r = HOLD then reply (text_response HoldNotExecutable 400) db []
      else (case choose_order w r of
              Inl resp \<Rightarrow> reply resp db []
            | Inr req \<Rightarrow>
                (case submitOrder w req of
                   Inl e \<Rightarrow> reply (text_response (OrderSubmissionFailed e) 500) db [(req, db)]
                 | Inr order \<Rightarrow>
                     reply (text_response (TradeExecuted (action r) (rec_ticker r)) 200)
                       (record_approval w db rid r (toISOString h (clock w)) order)
                       [(req, db)])))"
  using validatePending_fresh [of w db rid r True h] assms
  by (simp add: handleApprove_def)

lemma handleApprove_orders:
  assumes "(req, d) \<in> set (orders (handleApprove h w db rid))"
  shows "d = db \<and> status_in db rid = Some PENDING \<and> orders (handleApprove h w db rid) = [(req, db)]"
proof (cases "validatePending h w db rid True")
  case (Pair v db1)
  show ?thesis
  proof (cases v)
    case (Inl e)
    with Pair assms show ?thesis by (simp add: handleApprove_def)
  next
    case (Inr val)
    show ?thesis
    proof (cases val)
      case (Invalid resp)
      with Pair Inr assms show ?thesis by (simp add: handleApprove_def reply_def)
    next
      case (Valid r t)
      with Pair Inr have v: "validatePending h w db rid True = (Inr (Valid r t), db1)" by simp
      from validatePending_Valid [OF v]
      have f: "db1 = db" "recommendations db rid = Some r" "status r = PENDING" by auto
      then have st: "status_in db rid = Some PENDING" by (simp add: status_in_def)
      from assms v f(1) st show ?thesis
        by (auto simp: handleApprove_def reply_def split: if_splits sum.splits)
    qed
  qed
qed

lemma handleApprove_approved:
  assumes after: "status_in (store (handleApprove h w db rid)) rid = Some APPROVED"
    and before: "status_in db rid \<noteq> Some APPROVED"
  shows "\<exists>req order. orders (handleApprove h w db rid) = [(req, db)] \<and> submitOrder w req = Inr order"
proof (cases "validatePending h w db rid True")
  case (Pair v db1)
  show ?thesis
  proof (cases v)
    case (Inl e)
    with Pair validatePending_Inl_store [of h w db rid True e db1] after before
    show ?thesis by (simp add: handleApprove_def)
  next
    case (Inr val)
    show ?thesis
    proof (cases val)
      case (Invalid resp)
      with Pair Inr have "validatePending h w db rid True = (Inr (Invalid resp), db1)" by simp
      from validatePending_Invalid_store [OF this] Pair Inr Invalid after before
      show ?thesis by (auto simp: handleApprove_def reply_def)
    next
      case (Valid r t)
      with Pair Inr have v: "validatePending h w db rid True = (Inr (Valid r t), db1)" by simp
      from validatePending_Valid [OF v] have f: "db1 = db" by auto
      from after before v f show ?thesis
        by (auto simp: handleApprove_def reply_def split: if_splits sum.splits)
    qed
  qed
qed

lemma update_ignores_current_status:
  assumes "recommendations db rid = Some r"
  shows "updateRecommendationStatus w
           (db\<lparr> recommendations := (recommendations db)(rid \<mapsto> r\<lparr> status := s0, resolvedAt := x \<rparr>) \<rparr>)
           rid st t
         = updateRecommendationStatus w db rid st t"
  using assms by (simp add: updateRecommendationStatus_def Let_def)

subsection \<open>The step order of the approval handler\<close>

text \<open>The traces of the handler have five shapes.\<close>

lemma trace_shapes:
  "approve_trace h w rd rid = [ReadRow rid] \<or>
   (\<exists>t. approve_trace h w rd rid = [ReadRow rid, WriteStatus rid EXPIRED t]) \<or>
   (\<exists>r fetch. rd = Inr (Some r) \<and> status r = PENDING \<and> \<not> is_write fetch \<and> \<not> is_order fetch \<and>
      (approve_trace h w rd rid = [ReadRow rid, fetch] \<or>
       (\<exists>req. approve_trace h w rd rid = [ReadRow rid, fetch, PlaceOrder req]
              \<and> (\<exists>e. submitOrder w req = Inl e)) \<or>
       (\<exists>req order trade t. approve_trace h w rd rid
              = [ReadRow rid, fetch, PlaceOrder req, WriteTrade trade, WriteStatus rid APPROVED t]
              \<and> submitOrder w req = Inr order)))"
  by (auto simp: approve_trace_def split: sum.splits option.splits)

text \<open>Run alone on a store, the handler leaves the store that the writes of its trace
  produce, and it places the orders of its trace.\<close>

lemma approve_trace_store:
  "store (handleApprove h w db rid)
     = foldl (apply_step w) db (approve_trace h w (getRecommendation w db rid) rid)"
  by (auto simp: handleApprove_def validatePending_def approve_trace_def apply_step_def
      record_approval_def reply_def Let_def getRecommendation_def
      split: sum.splits option.splits)

lemma approve_trace_orders:
  "map (\<lambda>c. PlaceOrder (fst c)) (orders (handleApprove h w db rid))
     = filter is_order (approve_trace h w (getRecommendation w db rid) rid)"
  by (auto simp: handleApprove_def validatePending_def approve_trace_def
      reply_def Let_def getRecommendation_def
      split: sum.splits option.splits)

subsection \<open>The decision loop\<close>

lemma earmarked_finish: "earmarked (finish st d out) = earmarked st + earmarked_by out"
  by (simp add: earmarked_def finish_def)

lemma accepted_finish:
  "accepted_buys (finish st d out) = accepted_buys st + (if took out then 1 else 0)"
  by (simp add: accepted_buys_def finish_def)

lemma remaining_finish: "remainingBuyingPower (finish st d out) = remainingBuyingPower st"
  by (simp add: finish_def)

lemma earmarked_upd [simp]:
  "earmarked (st\<lparr> remainingBuyingPower := x \<rparr>) = earmarked st"
  "earmarked (st\<lparr> loop_store := y \<rparr>) = earmarked st"
  "earmarked (st\<lparr> newPendingIds := z \<rparr>) = earmarked st"
  "earmarked (st\<lparr> aborted := a \<rparr>) = earmarked st"
  by (simp_all add: earmarked_def)

lemma accepted_upd [simp]:
  "accepted_buys (st\<lparr> remainingBuyingPower := x \<rparr>) = accepted_buys st"
  "accepted_buys (st\<lparr> loop_store := y \<rparr>) = accepted_buys st"
  "accepted_buys (st\<lparr> newPendingIds := z \<rparr>) = accepted_buys st"
  "accepted_buys (st\<lparr> aborted := a \<rparr>) = accepted_buys st"
  by (simp_all add: accepted_buys_def)

lemma step_skipped:
  assumes "d_action d = BUY" "remainingBuyingPower st < resolve_notional w f d"
  shows "decide_step w f st d
           = finish st d (if d_ticker d \<in> set (map symbol (held f))
                          then SkippedAlreadyHeld else SkippedFunds)"
  using assms by (simp add: decide_step_def Let_def)

lemma step_accepted:
  assumes "d_action d = BUY" "d_ticker d \<notin> set (map symbol (held f))"
    "resolve_notional w f d \<le> remainingBuyingPower st"
  shows "remainingBuyingPower (decide_step w f st d)
           = fl (remainingBuyingPower st - resolve_notional w f d)
         \<and> earmarked (decide_step w f st d) = earmarked st + resolve_notional w f d
         \<and> accepted_buys (decide_step w f st d) = Suc (accepted_buys st)"
  using assms
  by (auto simp: decide_step_def Let_def earmarked_finish remaining_finish accepted_finish
      split: sum.splits prod.splits)

text \<open>
  What a step does to the counter, the earmarked sum and the count: nothing, or the three
  changes of an accepted BUY.
\<close>

lemma step_cases:
  "(remainingBuyingPower (decide_step w f st d) = remainingBuyingPower st
      \<and> earmarked (decide_step w f st d) = earmarked st
      \<and> accepted_buys (decide_step w f st d) = accepted_buys st)
   \<or> (d_action d = BUY \<and> resolve_notional w f d \<le> remainingBuyingPower st
      \<and> remainingBuyingPower (decide_step w f st d)
           = fl (remainingBuyingPower st - resolve_notional w f d)
      \<and> earmarked (decide_step w f st d) = earmarked st + resolve_notional w f d
      \<and> accepted_buys (decide_step w f st d) = Suc (accepted_buys st))"
  by (auto simp: decide_step_def Let_def earmarked_finish remaining_finish accepted_finish
      split: sum.splits prod.splits)

lemma step_budget:
  assumes inv: "within_budget bp st" and bp: "0 \<le> bp"
    and n: "d_action d = BUY \<longrightarrow> 0 \<le> resolve_notional w f d"
  shows "within_budget bp (decide_step w f st d)"
proof -
  define u :: real where "u = 1 / 2 ^ 53"
  define r where "r = remainingBuyingPower st"
  define n where "n = resolve_notional w f d"
  define e where "e = earmarked st"
  define m where "m = accepted_buys st"
  let ?st' = "decide_step w f st d"
  have u0: "0 \<le> u" by (simp add: u_def)
  from inv have r0: "0 \<le> r" and e0: "0 \<le> e" and le: "e + r \<le> bp * (1 + u) ^ m"
    by (simp_all add: within_budget_def u_def r_def e_def m_def)
  from step_cases [of w f st d] show ?thesis
  proof
    assume "remainingBuyingPower ?st' = remainingBuyingPower st
      \<and> earmarked ?st' = earmarked st \<and> accepted_buys ?st' = accepted_buys st"
    with inv show ?thesis by (simp add: within_budget_def)
  next
    assume "d_action d = BUY \<and> resolve_notional w f d \<le> remainingBuyingPower st
      \<and> remainingBuyingPower ?st' = fl (remainingBuyingPower st - resolve_notional w f d)
      \<and> earmarked ?st' = earmarked st + resolve_notional w f d
      \<and> accepted_buys ?st' = Suc (accepted_buys st)"
    then have a: "d_action d = BUY" "n \<le> r" "remainingBuyingPower ?st' = fl (r - n)"
      "earmarked ?st' = e + n" "accepted_buys ?st' = Suc m"
      by (simp_all add: r_def n_def e_def m_def)
    have n0: "0 \<le> n" using n a(1) by (simp add: n_def)
    have d0: "0 \<le> r - n" using a(2) by simp
    have r': "0 \<le> fl (r - n)" using d0 by (rule fl_nonneg)
    have "fl (r - n) \<le> (r - n) * (1 + u)" using fl_upper [OF d0] by (simp only: u_def)
    then have "e + n + fl (r - n) \<le> e + n + (r - n) * (1 + u)"
      by simp
    also have "\<dots> = (e + r) + u * (r - n)" by (simp add: algebra_simps)
    also have "\<dots> \<le> (e + r) + u * (e + r)"
    proof -
      have "r - n \<le> e + r" using e0 n0 by simp
      then have "u * (r - n) \<le> u * (e + r)" using u0 by (rule mult_left_mono)
      then show ?thesis by simp
    qed
    also have "\<dots> = (e + r) * (1 + u)" by (simp add: algebra_simps)
    also have "\<dots> \<le> (bp * (1 + u) ^ m) * (1 + u)"
      using le u0 by (intro mult_right_mono) simp_all
    also have "\<dots> = bp * (1 + u) ^ Suc m" by simp
    finally have "e + n + fl (r - n) \<le> bp * (1 + u) ^ Suc m" .
    then have "earmarked ?st' + remainingBuyingPower ?st'
        \<le> bp * (1 + 1 / 2 ^ 53) ^ accepted_buys ?st'"
      using a by (simp only: u_def)
    moreover have "0 \<le> earmarked ?st'" using a e0 n0 by simp
    moreover have "0 \<le> remainingBuyingPower ?st'" using a r' by simp
    ultimately show ?thesis by (simp only: within_budget_def simp_thms)
  qed
qed

lemma loop_budget:
  assumes "within_budget bp st" "0 \<le> bp"
    "\<forall>d \<in> set ds. d_action d = BUY \<longrightarrow> 0 \<le> resolve_notional w f d"
  shows "within_budget bp (decide_from w f st ds)"
  using assms
proof (induction ds arbitrary: st)
  case Nil
  then show ?case by simp
next
  case (Cons d ds)
  have "within_budget bp (decide_step w f st d)"
    using Cons.prems by (intro step_budget) simp_all
  with Cons show ?case by (simp add: Let_def)
qed


text \<open>With whole numbers below \<open>2 ^ 53\<close> no subtraction rounds.\<close>

lemma step_whole:
  assumes r: "remainingBuyingPower st \<in> \<int>" "0 \<le> remainingBuyingPower st"
      "remainingBuyingPower st < 2 ^ 53"
    and n: "d_action d = BUY \<longrightarrow> resolve_notional w f d \<in> \<int> \<and> 0 \<le> resolve_notional w f d"
  shows "remainingBuyingPower (decide_step w f st d) \<in> \<int>
       \<and> 0 \<le> remainingBuyingPower (decide_step w f st d)
       \<and> remainingBuyingPower (decide_step w f st d) < 2 ^ 53
       \<and> remainingBuyingPower (decide_step w f st d) + earmarked (decide_step w f st d)
           = remainingBuyingPower st + earmarked st"
proof -
  let ?st' = "decide_step w f st d"
  from step_cases [of w f st d] show ?thesis
  proof
    assume "remainingBuyingPower ?st' = remainingBuyingPower st
      \<and> earmarked ?st' = earmarked st \<and> accepted_buys ?st' = accepted_buys st"
    with r show ?thesis by simp
  next
    assume a: "d_action d = BUY \<and> resolve_notional w f d \<le> remainingBuyingPower st
      \<and> remainingBuyingPower ?st' = fl (remainingBuyingPower st - resolve_notional w f d)
      \<and> earmarked ?st' = earmarked st + resolve_notional w f d
      \<and> accepted_buys ?st' = Suc (accepted_buys st)"
    define x where "x = remainingBuyingPower st - resolve_notional w f d"
    have "x \<in> \<int>" using r(1) n a by (simp add: x_def)
    moreover have x0: "0 \<le> x" and xr: "x \<le> remainingBuyingPower st"
      using a n by (simp_all add: x_def)
    moreover have "\<bar>x\<bar> < 2 ^ 53" using x0 xr r(3) by simp
    ultimately have "fl x = x" by (intro fl_int)
    then have "remainingBuyingPower ?st' = x" using a by (simp add: x_def)
    with \<open>x \<in> \<int>\<close> x0 xr r(3) a show ?thesis by (simp add: x_def)
  qed
qed

lemma loop_whole:
  assumes "remainingBuyingPower st \<in> \<int>" "0 \<le> remainingBuyingPower st"
      "remainingBuyingPower st < 2 ^ 53"
    and "\<forall>d \<in> set ds. d_action d = BUY
           \<longrightarrow> resolve_notional w f d \<in> \<int> \<and> 0 \<le> resolve_notional w f d"
  shows "remainingBuyingPower (decide_from w f st ds) + earmarked (decide_from w f st ds)
           = remainingBuyingPower st + earmarked st"
  using assms
proof (induction ds arbitrary: st)
  case Nil
  then show ?case by simp
next
  case (Cons d ds)
  have s: "remainingBuyingPower (decide_step w f st d) \<in> \<int>
       \<and> 0 \<le> remainingBuyingPower (decide_step w f st d)
       \<and> remainingBuyingPower (decide_step w f st d) < 2 ^ 53
       \<and> remainingBuyingPower (decide_step w f st d) + earmarked (decide_step w f st d)
           = remainingBuyingPower st + earmarked st"
    using Cons.prems by (intro step_whole) simp_all
  show ?case
  proof (cases "aborted (decide_step w f st d) = None")
    case True
    have "remainingBuyingPower (decide_from w f (decide_step w f st d) ds)
            + earmarked (decide_from w f (decide_step w f st d) ds)
          = remainingBuyingPower (decide_step w f st d) + earmarked (decide_step w f st d)"
      using s Cons.prems(4) by (intro Cons.IH) simp_all
    with s True show ?thesis by (simp add: Let_def)
  next
    case False
    with s show ?thesis by (auto simp: Let_def)
  qed
qed

lemma loop0_eval:
  "remainingBuyingPower loop0 = 0 \<and>
   map (\<lambda>p. earmarked_by (snd p)) (outcomes loop0) = [10000, 0, 5000] \<and>
   accepted_buys loop0 = 2"
  by (simp add: loop0_def decide_loop_def decisions0_def buy_def decide_step_def
      resolve_notional_def Let_def fetched0_def world0_def insertRecommendation_def finish_def
      accepted_buys_def fl_5000 fl_0)

lemma loop_tiny_eval:
  "remainingBuyingPower loop_tiny = 0 \<and>
   map (\<lambda>p. earmarked_by (snd p)) (outcomes loop_tiny) = [1 / 2 ^ 40, 100000] \<and>
   accepted_buys loop_tiny = 2"
  using fl_swallow
  by (simp add: loop_tiny_def decide_loop_def decisions_tiny_def buy_def decide_step_def
      resolve_notional_def Let_def fetched0_def world0_def insertRecommendation_def finish_def
      accepted_buys_def fl_0)


lemma step_nonneg:
  "0 \<le> remainingBuyingPower st \<Longrightarrow> 0 \<le> remainingBuyingPower (decide_step w f st d)"
  using step_cases [of w f st d] fl_nonneg [of "remainingBuyingPower st - resolve_notional w f d"]
  by auto

lemma loop_nonneg:
  "0 \<le> remainingBuyingPower st \<Longrightarrow> 0 \<le> remainingBuyingPower (decide_from w f st ds)"
  by (induction ds arbitrary: st) (simp_all add: Let_def step_nonneg)

lemma loop_mid_eval:
  "remainingBuyingPower loop_mid = 5000 \<and> recommendations (loop_store loop_mid) ''id-BBB'' = None"
  by (simp add: loop_mid_def decide_loop_def buy_def decide_step_def
      resolve_notional_def Let_def fetched0_def world0_def insertRecommendation_def finish_def
      empty_store_def fl_5000)

lemma notionals0:
  "map d_action decisions0 = [BUY, BUY, BUY] \<and>
   map (resolve_notional world0 fetched0) decisions0 = [10000, 10000, 5000] \<and>
   held fetched0 = []"
  by (simp add: decisions0_def buy_def resolve_notional_def fetched0_def)

section \<open>Claims about the scoring engine\<close>

text \<open>
  C4 (role classifier). The patterns are tried in order (executive, director, officer) and
  the first match wins, with 40 / 25 / 15 points and 5 when none matches
  (\<open>scoreRole_tiers\<close>). The claim that a
  role containing "Vice President" and no standalone executive title scores 15 does not hold
  of the code: \<^verbatim>\<open>\bPRESIDENT\b\<close> matches the word "President" of "Vice President", so the
  executive pattern wins, and \<^verbatim>\<open>\bVICE\s+PRES\b\<close> cannot match it at all, since no word
  boundary follows "Pres" in "President". On the role of the repository's own test case 4,
  "Vice President of Operations", \<open>scoreRole\<close> returns 40 and the officer pattern does not
  match.
\<close>

theorem scoreRole_vice_president:
  "scoreRole ''Vice President of Operations'' = 40 \<and>
   \<not> re_test officer_re ''Vice President of Operations''"
  by code_simp

text \<open>
  C6 (ranking and bounds). For every batch, clock reading and limit, the list returned by
  \<open>scoreSignals\<close> is sorted non-increasing by score, every returned score lies in
  \<open>[0, 100]\<close>, and each score is the sum of its four recorded factors capped at 100. The
  four factors never sum to more than 100, so the cap is never the smaller of the two and
  the summary never carries the "capped from" note.
\<close>

theorem scoreSignals_sorted_bounded:
  "sorted_wrt (\<lambda>a b. score b \<le> score a) (scoreSignals h now fs limit) \<and>
   (\<forall>s \<in> set (scoreSignals h now fs limit).
      0 \<le> score s \<and> score s \<le> 100 \<and>
      score s = min (roleFactor (scoreBreakdown s) + valueFactor (scoreBreakdown s)
                     + clusterBonus (scoreBreakdown s) + recencyFactor (scoreBreakdown s)) 100 \<and>
      roleFactor (scoreBreakdown s) + valueFactor (scoreBreakdown s)
        + clusterBonus (scoreBreakdown s) + recencyFactor (scoreBreakdown s) \<le> 100)"
proof (intro conjI ballI)
  show "sorted_wrt (\<lambda>a b. score b \<le> score a) (scoreSignals h now fs limit)"
    by (rule scoreSignals_sorted)
next
  fix s assume "s \<in> set (scoreSignals h now fs limit)"
  then obtain f c where s: "s = buildSignal h now f c"
    using scoreSignals_subset [of h now fs limit] by blast
  show "0 \<le> score s" using buildSignal_bounds [of h now f c] s by simp
  show "score s \<le> 100" using buildSignal_bounds [of h now f c] s by simp
  show "score s = min (roleFactor (scoreBreakdown s) + valueFactor (scoreBreakdown s)
                     + clusterBonus (scoreBreakdown s) + recencyFactor (scoreBreakdown s)) 100"
    unfolding s by (rule buildSignal_total)
  show "roleFactor (scoreBreakdown s) + valueFactor (scoreBreakdown s)
        + clusterBonus (scoreBreakdown s) + recencyFactor (scoreBreakdown s) \<le> 100"
    unfolding s by (rule buildSignal_raw)
qed

text \<open>
  The three purchases of \<open>batch0\<close>, scored on 11 March 2024: the CEO's 40 + 20 + 0 + 20,
  then the two directors' 25 + 5 + 20 + 20 and 25 + 10 + 20 + 10, as in the repository's
  scoring test.
\<close>

theorem scoreSignals_sorted_bounded_witness:
  "map score (scoreSignals host0 now0 batch0 default_limit) = [80, 70, 65] \<and>
   sorted_wrt (\<lambda>a b. score b \<le> score a) (scoreSignals host0 now0 batch0 default_limit) \<and>
   (\<exists>s \<in> set (scoreSignals host0 now0 batch0 default_limit).
      0 \<le> score s \<and> score s \<le> 100 \<and>
      score s = min (roleFactor (scoreBreakdown s) + valueFactor (scoreBreakdown s)
                     + clusterBonus (scoreBreakdown s) + recencyFactor (scoreBreakdown s)) 100 \<and>
      roleFactor (scoreBreakdown s) + valueFactor (scoreBreakdown s)
        + clusterBonus (scoreBreakdown s) + recencyFactor (scoreBreakdown s) \<le> 100)"
proof -
  let ?out = "scoreSignals host0 now0 batch0 default_limit"
  have e: "map score ?out = [80, 70, 65]"
    by (rule batch0_scores)
  then have "?out \<noteq> []" by auto
  then obtain s where s: "s \<in> set ?out" by (cases ?out) auto
  from scoreSignals_sorted_bounded [of host0 now0 batch0 default_limit] e s
  show ?thesis by blast
qed

text \<open>
  C7 (no minimum-score filter). When the batch holds at most \<open>limit\<close> purchase records, the
  filings of the returned signals are exactly the purchase records of the batch, each as
  often as it occurs there: nothing is dropped for a low score. For any limit the returned
  filings are purchase records of the batch, and for a limit \<open>\<ge> 0\<close> their number is the
  smaller of the limit and the number of purchase records: a record is absent only because
  it is not a purchase or because the list is cut at the limit.
\<close>

theorem scoreSignals_no_min_filter:
  "(int (length (filter is_purchase fs)) \<le> limit
      \<longrightarrow> mset (map filing (scoreSignals h now fs limit)) = mset (filter is_purchase fs)) \<and>
   mset (map filing (scoreSignals h now fs limit)) \<subseteq># mset (filter is_purchase fs) \<and>
   (0 \<le> limit
      \<longrightarrow> length (scoreSignals h now fs limit)
            = min (nat limit) (length (filter is_purchase fs)))"
  using scoreSignals_filings [of fs limit h now] scoreSignals_filings_sub [of h now fs limit]
    scoreSignals_length [of limit h now fs]
  by blast

text \<open>
  The repository's test batch has four purchases, below the default limit of 10: all four
  are returned, the "SMALL" record among them, whose score of 40 the retired threshold of
  50 would have dropped.
\<close>

theorem scoreSignals_no_min_filter_witness:
  "int (length (filter is_purchase mockFilings)) \<le> default_limit \<and>
   mset (map filing (scoreSignals host0 now0 mockFilings default_limit))
     = mset (filter is_purchase mockFilings) \<and>
   length (scoreSignals host0 now0 mockFilings default_limit) = 4 \<and>
   mk_filing ''SMALL'' ''Carol White'' ''Vice President of Operations'' ''2024-03-01'' ''P'' 8500
     \<in> set (map filing (scoreSignals host0 now0 mockFilings default_limit))"
proof -
  have n: "length (filter is_purchase mockFilings) = 4"
    by (simp add: mockFilings_def is_purchase_def mk_filing_def)
  have le: "int (length (filter is_purchase mockFilings)) \<le> default_limit"
    by (simp add: n default_limit_def)
  have pos: "0 \<le> default_limit" by (simp add: default_limit_def)
  have small: "mk_filing ''SMALL'' ''Carol White'' ''Vice President of Operations'' ''2024-03-01'' ''P'' 8500
     \<in> set (filter is_purchase mockFilings)"
    by (simp add: mockFilings_def is_purchase_def mk_filing_def)
  from scoreSignals_no_min_filter [of mockFilings default_limit host0 now0] le pos
  have eq: "mset (map filing (scoreSignals host0 now0 mockFilings default_limit))
              = mset (filter is_purchase mockFilings)"
    and len: "length (scoreSignals host0 now0 mockFilings default_limit)
              = min (nat default_limit) (length (filter is_purchase mockFilings))"
    by blast+
  from len have "length (scoreSignals host0 now0 mockFilings default_limit) = 4"
    by (simp add: n default_limit_def)
  moreover from eq small
  have "mk_filing ''SMALL'' ''Carol White'' ''Vice President of Operations'' ''2024-03-01'' ''P'' 8500
     \<in> set (map filing (scoreSignals host0 now0 mockFilings default_limit))"
    by (metis set_mset_mset)
  ultimately show ?thesis using le eq by blast
qed

text \<open>
  C9 (determinism), as stated: two evaluations of \<open>scoreSignals\<close> on identical inputs give
  identical output. The code reads the clock in \<open>scoreRecency\<close>, so the same batch scored on
  11 March 2024 and one day later gets different scores.
\<close>

theorem scoreSignals_clock_counterexample:
  "map score (scoreSignals host0 now0 batch0 default_limit) = [80, 70, 65] \<and>
   map score (scoreSignals host0 (now0 + 86400000) batch0 default_limit) = [70, 60, 55]"
  using batch0_scores batch0_scores_next_day by (rule conjI)

text \<open>
  C9, amended: the output of \<open>scoreSignals\<close> is determined by the batch, the limit and the
  current UTC calendar date. Two evaluations on the same batch and limit whose clock
  readings give the same date strings for today and for yesterday return the same list
  (scores, breakdowns, summaries and order).
\<close>

theorem scoreSignals_same_day:
  assumes "utcDateString h n1 0 = utcDateString h n2 0"
    and "utcDateString h n1 (- 1) = utcDateString h n2 (- 1)"
  shows "scoreSignals h n1 fs limit = scoreSignals h n2 fs limit"
proof -
  have "scoreRecency h n1 d = scoreRecency h n2 d" for d
    using assms by (simp add: scoreRecency_def)
  then have eq: "buildSignal h n1 f c = buildSignal h n2 f c" for f c
    by (simp add: buildSignal_def)
  show ?thesis by (simp add: scoreSignals_def Let_def eq)
qed

text \<open>Two readings one second apart on 11 March 2024.\<close>

theorem scoreSignals_same_day_witness:
  "utcDateString host0 now0 0 = utcDateString host0 (now0 + 1000) 0 \<and>
   utcDateString host0 now0 (- 1) = utcDateString host0 (now0 + 1000) (- 1) \<and>
   scoreSignals host0 now0 batch0 default_limit = scoreSignals host0 (now0 + 1000) batch0 default_limit"
proof -
  have a: "utcDateString host0 now0 0 = utcDateString host0 (now0 + 1000) 0"
    by code_simp
  have b: "utcDateString host0 now0 (- 1) = utcDateString host0 (now0 + 1000) (- 1)"
    by code_simp
  from scoreSignals_same_day [OF a b] a b show ?thesis by blast
qed

text \<open>
  C5 (cluster bonus). \<^verbatim>\<open>detectClusters\<close> documents that a filing qualifies "when at least one
  other insider bought the same ticker within 5 calendar days", and the claim that a record
  which is the only purchase on its ticker never receives the bonus follows from that. The
  code looks membership up through \<open>filingKey\<close>, which joins ticker, insider name and date
  with NUL characters and is not injective: ticker "A" with insider "B", NUL, "C" has the
  key of ticker "A", NUL, "B" with insider "C". In \<open>nul_batch\<close> the only purchase on ticker
  "A", by the only insider on that ticker, receives +20, because two insiders bought the
  ticker "A", NUL, "B" on the same day. The other two parts of the claim hold of every batch, and this one holds when
  no ticker contains NUL (\<open>cluster_bonus_rule\<close>).
\<close>

theorem solitary_purchase_gets_bonus:
  "purchases_on ''A'' nul_batch
     = [mk_filing ''A'' (''B'' @ [CHR 0x00] @ ''C'') ''CEO'' ''2024-03-10'' ''P'' 50000] \<and>
   bonus_of ''A'' (''B'' @ [CHR 0x00] @ ''C'') (scoreSignals host0 now0 nul_batch default_limit) = [20]"
proof
  show "purchases_on ''A'' nul_batch
     = [mk_filing ''A'' (''B'' @ [CHR 0x00] @ ''C'') ''CEO'' ''2024-03-10'' ''P'' 50000]"
    by (simp add: purchases_on_def nul_batch_def is_purchase_def mk_filing_def)
  show "bonus_of ''A'' (''B'' @ [CHR 0x00] @ ''C'') (scoreSignals host0 now0 nul_batch default_limit) = [20]"
    by code_simp
qed
section \<open>Claims about the recommendation lifecycle\<close>

text \<open>
  C1 (conditional transition). A status update on a resolved recommendation should leave
  its status and \<open>resolved_at\<close> unchanged. \<open>updateRecommendationStatus\<close> selects the row
  by its id alone, so it overwrites a resolved recommendation, whatever the table's
  constraint on rows (\<open>update_ignores_current_status\<close>). The two routes read the status
  first and leave a resolved record alone (\<open>resolved_routes_noop\<close>); the timer callback
  does not. Here a recommendation approved at 01:00 is hit by its expiry timer at 23:00:
  its status becomes \<open>EXPIRED\<close>, its \<open>resolved_at\<close> is replaced, and the callback
  takes the success branch (the id leaves the pending list).
\<close>

theorem expire_overwrites_approved:
  "status_in (store_of approved0) ''r1'' = Some APPROVED \<and>
   status_in (fst (expireRecommendation host0 world_timer (store_of approved0, [''r1'']) ''r1'')) ''r1''
     = Some EXPIRED \<and>
   resolved_in (fst (expireRecommendation host0 world_timer (store_of approved0, [''r1'']) ''r1'')) ''r1''
     = Some ''2024-03-11T23:00:00.000Z'' \<and>
   snd (expireRecommendation host0 world_timer (store_of approved0, [''r1'']) ''r1'') = []"
  by code_simp

text \<open>
  C2 (order after the transition), as stated: no order-placing call occurs while the
  persisted status is still \<open>PENDING\<close>. The handler validates, places the order, logs
  the trade and only then marks the recommendation \<open>APPROVED\<close>: in the run below the
  brokerage receives the order while the store still says \<open>PENDING\<close>.
\<close>

theorem approve_orders_while_pending:
  "orders_seen ''r1'' (handleApprove host0 world0 (store_of rec0) ''r1'')
     = [(PaperBuyQty ''AAPL'' 66, Some PENDING)] \<and>
   status_in (store (handleApprove host0 world0 (store_of rec0) ''r1'')) ''r1'' = Some APPROVED"
  by code_simp

text \<open>
  C2, amended, as the handler's own step order. The order call is issued after the
  handler's validation read has returned the row with status \<open>PENDING\<close>, and before any
  write that the handler issues; no other order call precedes or follows it. The write of
  \<open>APPROVED\<close> is issued only after an order call that returned an order. Nothing is said
  of the status that the store holds when the order call is issued: the handler awaits
  between its read and the call, and every writer updates unconditionally. Run alone on a
  store, the handler leaves the store that its writes produce, and places the orders of
  its trace.
\<close>

theorem approve_order_precedes_transition:
  "(\<forall>pre req post. approve_trace h w rd rid = pre @ PlaceOrder req # post \<longrightarrow>
       (\<exists>r. rd = Inr (Some r) \<and> status r = PENDING)
       \<and> ReadRow rid \<in> set pre
       \<and> (\<forall>s \<in> set pre. \<not> is_write s \<and> \<not> is_order s)
       \<and> (\<forall>s \<in> set post. \<not> is_order s)) \<and>
   (\<forall>pre t post. approve_trace h w rd rid = pre @ WriteStatus rid APPROVED t # post \<longrightarrow>
       (\<exists>req order. PlaceOrder req \<in> set pre \<and> submitOrder w req = Inr order)) \<and>
   store (handleApprove h w db rid)
     = foldl (apply_step w) db (approve_trace h w (getRecommendation w db rid) rid) \<and>
   map (\<lambda>c. PlaceOrder (fst c)) (orders (handleApprove h w db rid))
     = filter is_order (approve_trace h w (getRecommendation w db rid) rid)"
proof -
  have a: "(\<exists>r. rd = Inr (Some r) \<and> status r = PENDING)
       \<and> ReadRow rid \<in> set pre
       \<and> (\<forall>s \<in> set pre. \<not> is_write s \<and> \<not> is_order s)
       \<and> (\<forall>s \<in> set post. \<not> is_order s)"
    if "approve_trace h w rd rid = pre @ PlaceOrder req # post" for pre req post
    using trace_shapes [of h w rd rid] that
    by (auto simp: append_eq_Cons_conv Cons_eq_append_conv)
  have b: "\<exists>req order. PlaceOrder req \<in> set pre \<and> submitOrder w req = Inr order"
    if "approve_trace h w rd rid = pre @ WriteStatus rid APPROVED t # post" for pre t post
    using trace_shapes [of h w rd rid] that
    by (auto simp: append_eq_Cons_conv Cons_eq_append_conv)
  from a b approve_trace_store [of h w db rid] approve_trace_orders [of h w db rid]
  show ?thesis by blast
qed

text \<open>
  The approval of \<open>rec0\<close>: the read, the price lookup, one whole-share order for 66 AAPL,
  the trade log and the write of \<open>APPROVED\<close>, in this order.
\<close>

theorem approve_order_precedes_transition_witness:
  "approve_trace host0 world0 (Inr (Some rec0)) ''r1''
     = [ReadRow ''r1'', FetchPrices [''AAPL''], PlaceOrder (PaperBuyQty ''AAPL'' 66),
        WriteTrade trade0, WriteStatus ''r1'' APPROVED ''2024-03-11T09:35:00.000Z''] \<and>
   getRecommendation world0 (store_of rec0) ''r1'' = Inr (Some rec0) \<and>
   status rec0 = PENDING \<and>
   submitOrder world0 (PaperBuyQty ''AAPL'' 66) = Inr order0 \<and>
   map (\<lambda>c. PlaceOrder (fst c)) (orders (handleApprove host0 world0 (store_of rec0) ''r1''))
     = [PlaceOrder (PaperBuyQty ''AAPL'' 66)] \<and>
   status_in (store (handleApprove host0 world0 (store_of rec0) ''r1'')) ''r1'' = Some APPROVED"
proof -
  let ?t = "approve_trace host0 world0 (Inr (Some rec0)) ''r1''"
  let ?req = "PaperBuyQty ''AAPL'' 66"
  let ?iso = "''2024-03-11T09:35:00.000Z''"
  note step_order = approve_order_precedes_transition [of host0 world0 "Inr (Some rec0)" "''r1''"
      "store_of rec0"]
  have t: "?t = [ReadRow ''r1'', FetchPrices [''AAPL''], PlaceOrder ?req,
        WriteTrade trade0, WriteStatus ''r1'' APPROVED ?iso]"
    by code_simp
  have rd: "getRecommendation world0 (store_of rec0) ''r1'' = Inr (Some rec0)"
    by (simp add: getRecommendation_def world0_def store_of_def rec0_def)
  have t1: "?t = [ReadRow ''r1'', FetchPrices [''AAPL'']] @ PlaceOrder ?req
        # [WriteTrade trade0, WriteStatus ''r1'' APPROVED ?iso]"
    by (simp add: t)
  have t2: "?t = [ReadRow ''r1'', FetchPrices [''AAPL''], PlaceOrder ?req, WriteTrade trade0]
        @ WriteStatus ''r1'' APPROVED ?iso # []"
    by (simp add: t)
  from step_order t1 have "\<exists>r. (Inr (Some rec0) :: error + Recommendation option) = Inr (Some r)
      \<and> status r = PENDING"
    by blast
  then have pending: "status rec0 = PENDING" by simp
  from step_order t2 obtain req order
    where "PlaceOrder req \<in> set [ReadRow ''r1'', FetchPrices [''AAPL''], PlaceOrder ?req,
        WriteTrade trade0]" and sub: "submitOrder world0 req = Inr order"
    by blast
  then have "req = ?req" by auto
  moreover from sub have "order = order0" by (simp add: world0_def)
  ultimately have placed: "submitOrder world0 ?req = Inr order0" using sub by simp
  from step_order have "map (\<lambda>c. PlaceOrder (fst c))
        (orders (handleApprove host0 world0 (store_of rec0) ''r1''))
      = filter is_order (approve_trace host0 world0
          (getRecommendation world0 (store_of rec0) ''r1'') ''r1'')"
    by blast
  then have run: "map (\<lambda>c. PlaceOrder (fst c))
        (orders (handleApprove host0 world0 (store_of rec0) ''r1'')) = [PlaceOrder ?req]"
    by (simp add: rd t)
  have after: "status_in (store (handleApprove host0 world0 (store_of rec0) ''r1'')) ''r1''
      = Some APPROVED"
    by code_simp
  from t rd pending placed run after show ?thesis by (simp only: simp_thms)
qed

text \<open>
  C3 (stale approval). A recommendation that is still \<open>PENDING\<close> and whose age since
  \<open>createdAt\<close> is at least the expiry duration gets, on an approval attempt, the 400
  response of the expiry; no order is placed; its status is never \<open>APPROVED\<close>
  afterwards; and, the store accepting the write, it is \<open>EXPIRED\<close>.
\<close>

theorem stale_approval_expires:
  assumes row: "recommendations db rid = Some r" and pending: "status r = PENDING"
    and created: "createdAt r = Some s" "s \<noteq> []" "Date_parse h s = Some t"
    and age: "real_of_int (clock w - t) \<ge> expiryHours w * MS_PER_HOUR"
    and read: "d1_read_ok w"
  shows "response (handleApprove h w db rid)
           = Inr (text_response (ExpiredAfter (expiryHours w)) 400)
         \<and> orders (handleApprove h w db rid) = []
         \<and> status_in (store (handleApprove h w db rid)) rid \<noteq> Some APPROVED
         \<and> (d1_update_ok w (r\<lparr> status := EXPIRED, resolvedAt := Some (toISOString h (clock w)) \<rparr>)
              \<longrightarrow> status_in (store (handleApprove h w db rid)) rid = Some EXPIRED
                  \<and> resolved_in (store (handleApprove h w db rid)) rid
                      = Some (toISOString h (clock w)))"
proof -
  let ?now = "toISOString h (clock w)"
  let ?db1 = "case updateRecommendationStatus w db rid EXPIRED ?now of Inl e \<Rightarrow> db | Inr db' \<Rightarrow> db'"
  have stale: "is_stale h w r" using is_stale_iff [OF created] age by simp
  have run: "handleApprove h w db rid
      = reply (text_response (ExpiredAfter (expiryHours w)) 400) ?db1 []"
    by (simp add: handleApprove_def validatePending_stale [OF read row pending stale])
  have never: "status_in ?db1 rid \<noteq> Some APPROVED"
  proof (cases "updateRecommendationStatus w db rid EXPIRED ?now")
    case (Inl e)
    then show ?thesis using row pending by (simp add: status_in_def)
  next
    case (Inr db')
    then show ?thesis using update_result [OF Inr] by simp
  qed
  have fin: "status_in ?db1 rid = Some EXPIRED \<and> resolved_in ?db1 rid = Some ?now"
    if "d1_update_ok w (r\<lparr> status := EXPIRED, resolvedAt := Some ?now \<rparr>)"
    using update_overwrites [OF row that] update_result [of w db rid EXPIRED ?now] by simp
  show ?thesis using never fin by (simp add: run reply_def)
qed

text \<open>An approval of \<open>stale0\<close>, 33 hours after its creation, with a 23-hour expiry.\<close>

theorem stale_approval_expires_witness:
  "response (handleApprove host0 world0 (store_of stale0) ''r1'')
     = Inr (text_response (ExpiredAfter 23) 400) \<and>
   orders (handleApprove host0 world0 (store_of stale0) ''r1'') = [] \<and>
   status_in (store (handleApprove host0 world0 (store_of stale0) ''r1'')) ''r1'' = Some EXPIRED"
proof -
  have row: "recommendations (store_of stale0) ''r1'' = Some stale0"
    by (simp add: store_of_def stale0_def rec0_def)
  have pending: "status stale0 = PENDING" by (simp add: stale0_def rec0_def)
  have created: "createdAt stale0 = Some ''2024-03-10''" by (simp add: stale0_def)
  have ne: "''2024-03-10'' \<noteq> []" by simp
  have parse: "Date_parse host0 ''2024-03-10'' = Some (19792 * 86400000)"
    by (simp add: host0_def march_parse_def march_def)
  have hours: "expiryHours world0 = 23" by (simp add: expiryHours_def world0_def)
  have age: "real_of_int (clock world0 - 19792 * 86400000) \<ge> expiryHours world0 * MS_PER_HOUR"
    unfolding hours by (simp add: world0_def now0_def MS_PER_HOUR_def)
  have read: "d1_read_ok world0" by (simp add: world0_def)
  have ok: "d1_update_ok world0 (stale0\<lparr> status := EXPIRED,
              resolvedAt := Some (toISOString host0 (clock world0)) \<rparr>)"
    by (simp add: world0_def)
  from stale_approval_expires [OF row pending created ne parse age read] ok hours
  show ?thesis by simp
qed

text \<open>
  C8, refuted as worded. A balance of 100000 against a BUY of \<open>2 ^ -40\<close> and a BUY of
  100000, all three binary64 numbers: the first subtraction rounds back to 100000, so the
  second BUY is accepted too, and the accepted notionals sum to more than the balance.
\<close>

theorem decide_overspends:
  "binary64 (1 / 2 ^ 40) \<and> binary64 100000 \<and>
   map (\<lambda>p. earmarked_by (snd p)) (outcomes loop_tiny) = [1 / 2 ^ 40, 100000] \<and>
   accepted_buys loop_tiny = 2 \<and>
   earmarked loop_tiny = 100000 + 1 / 2 ^ 40 \<and>
   100000 < earmarked loop_tiny"
proof -
  have "earmarked loop_tiny = 100000 + 1 / 2 ^ 40"
    using loop_tiny_eval by (simp add: earmarked_def)
  with binary64_tiny loop_tiny_eval show ?thesis by simp
qed

text \<open>
  C8, amended. A BUY whose notional exceeds the counter is skipped and changes neither the
  counter, nor the store, nor the earmarked sum; an accepted BUY replaces the counter by
  the binary64 difference of counter and notional before the next decision is folded in.
  With a non-negative balance the counter never goes below zero. If moreover no BUY has a
  negative notional, the accepted notionals and the counter together exceed the balance by
  at most one rounding per accepted BUY, a factor of \<open>1 + 2 ^ -53\<close> each. And if the balance
  and the notionals of the BUYs are whole numbers below \<open>2 ^ 53\<close>, nothing rounds: the
  counter ends at the balance minus the accepted notionals, which never sum to more than
  the balance.
\<close>

theorem decide_buying_power:
  "(d_action d = BUY \<and> remainingBuyingPower st < resolve_notional w f d
      \<longrightarrow> remainingBuyingPower (decide_step w f st d) = remainingBuyingPower st
          \<and> loop_store (decide_step w f st d) = loop_store st
          \<and> earmarked (decide_step w f st d) = earmarked st) \<and>
   (d_action d = BUY \<and> d_ticker d \<notin> set (map symbol (held f))
      \<and> resolve_notional w f d \<le> remainingBuyingPower st
      \<longrightarrow> remainingBuyingPower (decide_step w f st d)
            = fl (remainingBuyingPower st - resolve_notional w f d)
          \<and> earmarked (decide_step w f st d) = earmarked st + resolve_notional w f d) \<and>
   (0 \<le> bp \<longrightarrow> 0 \<le> remainingBuyingPower (decide_loop w f bp db ds)) \<and>
   (0 \<le> bp \<and> (\<forall>x \<in> set ds. d_action x = BUY \<longrightarrow> 0 \<le> resolve_notional w f x)
      \<longrightarrow> earmarked (decide_loop w f bp db ds) + remainingBuyingPower (decide_loop w f bp db ds)
            \<le> bp * (1 + 1 / 2 ^ 53) ^ accepted_buys (decide_loop w f bp db ds)) \<and>
   (0 \<le> bp \<and> bp < 2 ^ 53 \<and> bp \<in> \<int>
      \<and> (\<forall>x \<in> set ds. d_action x = BUY
            \<longrightarrow> 0 \<le> resolve_notional w f x \<and> resolve_notional w f x \<in> \<int>)
      \<longrightarrow> remainingBuyingPower (decide_loop w f bp db ds)
            = bp - earmarked (decide_loop w f bp db ds)
          \<and> earmarked (decide_loop w f bp db ds) \<le> bp)"
proof -
  let ?init = "\<lparr> remainingBuyingPower = bp, loop_store = db, newPendingIds = [],
                 outcomes = [], aborted = None \<rparr>"
  let ?L = "decide_loop w f bp db ds"
  have skip: "remainingBuyingPower (decide_step w f st d) = remainingBuyingPower st
          \<and> loop_store (decide_step w f st d) = loop_store st
          \<and> earmarked (decide_step w f st d) = earmarked st"
    if "d_action d = BUY \<and> remainingBuyingPower st < resolve_notional w f d"
    using step_skipped [of d st w f] that
    by (simp add: remaining_finish earmarked_finish) (simp add: finish_def)
  have acc: "remainingBuyingPower (decide_step w f st d)
            = fl (remainingBuyingPower st - resolve_notional w f d)
          \<and> earmarked (decide_step w f st d) = earmarked st + resolve_notional w f d"
    if "d_action d = BUY \<and> d_ticker d \<notin> set (map symbol (held f))
      \<and> resolve_notional w f d \<le> remainingBuyingPower st"
    using step_accepted [of d f w st] that by simp
  have nonneg: "0 \<le> remainingBuyingPower ?L" if "0 \<le> bp"
    using loop_nonneg [of ?init w f ds] that by (simp add: decide_loop_def)
  have budget: "earmarked ?L + remainingBuyingPower ?L \<le> bp * (1 + 1 / 2 ^ 53) ^ accepted_buys ?L"
    if "0 \<le> bp \<and> (\<forall>x \<in> set ds. d_action x = BUY \<longrightarrow> 0 \<le> resolve_notional w f x)"
  proof -
    have "within_budget bp ?init"
      using that by (simp add: within_budget_def earmarked_def accepted_buys_def)
    then have "within_budget bp (decide_from w f ?init ds)"
      using that by (intro loop_budget) simp_all
    then show ?thesis by (simp add: within_budget_def decide_loop_def)
  qed
  have whole: "remainingBuyingPower ?L = bp - earmarked ?L \<and> earmarked ?L \<le> bp"
    if "0 \<le> bp \<and> bp < 2 ^ 53 \<and> bp \<in> \<int>
      \<and> (\<forall>x \<in> set ds. d_action x = BUY
            \<longrightarrow> 0 \<le> resolve_notional w f x \<and> resolve_notional w f x \<in> \<int>)"
  proof -
    have "remainingBuyingPower (decide_from w f ?init ds) + earmarked (decide_from w f ?init ds)
            = remainingBuyingPower ?init + earmarked ?init"
      using that by (intro loop_whole) simp_all
    then have "remainingBuyingPower ?L + earmarked ?L = bp"
      by (simp add: decide_loop_def earmarked_def)
    with nonneg that show ?thesis by simp
  qed
  from skip acc nonneg budget whole show ?thesis by blast
qed

text \<open>
  A balance of 15000 against BUYs of 10000, 10000 and 5000: after the first the counter is
  5000, the second is skipped, the third is accepted, and the counter ends at 0.
\<close>

theorem decide_buying_power_witness:
  "map d_action decisions0 = [BUY, BUY, BUY] \<and>
   map (resolve_notional world0 fetched0) decisions0 = [10000, 10000, 5000] \<and>
   remainingBuyingPower loop_mid = 5000 \<and>
   remainingBuyingPower (decide_step world0 fetched0 loop_mid (buy ''BBB'' 10000)) = 5000 \<and>
   loop_store (decide_step world0 fetched0 loop_mid (buy ''BBB'' 10000)) = loop_store loop_mid \<and>
   remainingBuyingPower (decide_step world0 fetched0 loop_mid (buy ''CCC'' 5000)) = 0 \<and>
   remainingBuyingPower loop0 = 0 \<and> accepted_buys loop0 = 2 \<and> earmarked loop0 = 15000 \<and>
   earmarked loop0 + remainingBuyingPower loop0 \<le> 15000 * (1 + 1 / 2 ^ 53) ^ 2 \<and>
   remainingBuyingPower loop0 = 15000 - earmarked loop0"
proof -
  have ds: "set decisions0 = {buy ''AAA'' 10000, buy ''BBB'' 10000, buy ''CCC'' 5000}"
    by (auto simp: decisions0_def)
  have n: "resolve_notional world0 fetched0 (buy t x) = x" "d_action (buy t x) = BUY"
      "d_ticker (buy t x) = t" for t x
    by (simp_all add: buy_def resolve_notional_def)
  have h: "held fetched0 = []" by (simp add: fetched0_def)
  note a = decide_buying_power [of "buy ''BBB'' 10000" loop_mid world0 fetched0
      15000 empty_store decisions0]
  note b = decide_buying_power [of "buy ''CCC'' 5000" loop_mid world0 fetched0
      15000 empty_store decisions0]
  have "earmarked loop0 = 15000" using loop0_eval by (simp add: earmarked_def)
  with a b loop0_eval loop_mid_eval notionals0 show ?thesis
    by (simp add: n h ds loop0_def [symmetric] fl_0)
qed

text \<open>
  C10 (failures before the transition). Let the recommendation pass the validation of an
  approval (it is read, \<open>PENDING\<close> and not stale). If it is a BUY and the price of its
  ticker is missing or zero, the response is the 500 "price unavailable"; if the price
  gives fewer than one whole share, the 400 "notional too small"; and if the order call
  throws, the 500 "order submission failed". In each case the store is left as it was,
  with the recommendation still \<open>PENDING\<close>.
\<close>

theorem failed_approval_stays_pending:
  assumes read: "d1_read_ok w" and row: "recommendations db rid = Some r"
    and pending: "status r = PENDING" and fresh: "\<not> is_stale h w r"
  shows
    "(action r = BUY \<and> getPositionPrices w [rec_ticker r] = Inr ps
        \<and> (ps (rec_ticker r) = None \<or> ps (rec_ticker r) = Some 0)
      \<longrightarrow> response (handleApprove h w db rid)
            = Inr (text_response (PriceUnavailable (rec_ticker r)) 500)
          \<and> store (handleApprove h w db rid) = db
          \<and> orders (handleApprove h w db rid) = []) \<and>
     (action r = BUY \<and> getPositionPrices w [rec_ticker r] = Inr ps
        \<and> ps (rec_ticker r) = Some p \<and> p \<noteq> 0 \<and> \<lfloor>notional r / p\<rfloor> < 1
      \<longrightarrow> response (handleApprove h w db rid)
            = Inr (text_response (NotionalTooSmall (notional r) (rec_ticker r) p) 400)
          \<and> store (handleApprove h w db rid) = db
          \<and> orders (handleApprove h w db rid) = []) \<and>
     (action r \<noteq> HOLD \<and> choose_order w r = Inr req \<and> submitOrder w req = Inl e
      \<longrightarrow> response (handleApprove h w db rid)
            = Inr (text_response (OrderSubmissionFailed e) 500)
          \<and> store (handleApprove h w db rid) = db) \<and>
     status_in db rid = Some PENDING"
proof -
  note run = handleApprove_valid [OF read row pending fresh]
  have a: "choose_order w r = Inl (text_response (PriceUnavailable (rec_ticker r)) 500)"
    if "action r = BUY" "getPositionPrices w [rec_ticker r] = Inr ps"
      "ps (rec_ticker r) = None \<or> ps (rec_ticker r) = Some 0"
    using that by (auto simp: choose_order_def)
  have b: "choose_order w r
             = Inl (text_response (NotionalTooSmall (notional r) (rec_ticker r) p) 400)"
    if "action r = BUY" "getPositionPrices w [rec_ticker r] = Inr ps"
      "ps (rec_ticker r) = Some p" "p \<noteq> 0" "\<lfloor>notional r / p\<rfloor> < 1"
    using that by (simp add: choose_order_def Let_def)
  have st: "status_in db rid = Some PENDING" using row pending by (simp add: status_in_def)
  show ?thesis
    using a b st by (auto simp: run reply_def)
qed

text \<open>The three failures on \<open>rec0\<close>: no price, a price of 20000 for a notional of
  10000, and a brokerage answering HTTP 403.\<close>

theorem failed_approval_stays_pending_witness:
  "response (handleApprove host0 world_noprice (store_of rec0) ''r1'')
     = Inr (text_response (PriceUnavailable ''AAPL'') 500) \<and>
   store (handleApprove host0 world_noprice (store_of rec0) ''r1'') = store_of rec0 \<and>
   response (handleApprove host0 world_pricey (store_of rec0) ''r1'')
     = Inr (text_response (NotionalTooSmall 10000 ''AAPL'' 20000) 400) \<and>
   store (handleApprove host0 world_pricey (store_of rec0) ''r1'') = store_of rec0 \<and>
   response (handleApprove host0 world_down (store_of rec0) ''r1'')
     = Inr (text_response (OrderSubmissionFailed (AlpacaFailure ''HTTP 403'')) 500) \<and>
   store (handleApprove host0 world_down (store_of rec0) ''r1'') = store_of rec0 \<and>
   status_in (store_of rec0) ''r1'' = Some PENDING"
proof -
  have row: "recommendations (store_of rec0) ''r1'' = Some rec0"
    by (simp add: store_of_def rec0_def)
  have pending: "status rec0 = PENDING" by (simp add: rec0_def)
  have f1: "\<not> is_stale host0 world_noprice rec0"
    by (simp add: is_stale_def rec0_def host0_def march_parse_def march_def world_noprice_def
        world0_def now0_def expiryHours_def MS_PER_HOUR_def)
  have f2: "\<not> is_stale host0 world_pricey rec0"
    by (simp add: is_stale_def rec0_def host0_def march_parse_def march_def world_pricey_def
        world0_def now0_def expiryHours_def MS_PER_HOUR_def)
  have f3: "\<not> is_stale host0 world_down rec0"
    by (simp add: is_stale_def rec0_def host0_def march_parse_def march_def world_down_def
        world0_def now0_def expiryHours_def MS_PER_HOUR_def)
  have r1: "d1_read_ok world_noprice" by (simp add: world_noprice_def world0_def)
  have r2: "d1_read_ok world_pricey" by (simp add: world_pricey_def world0_def)
  have r3: "d1_read_ok world_down" by (simp add: world_down_def world0_def)
  have buy: "action rec0 = BUY" "rec_ticker rec0 = ''AAPL''" "notional rec0 = 10000"
    by (simp_all add: rec0_def)
  have p1: "getPositionPrices world_noprice [rec_ticker rec0] = Inr Map.empty"
    by (simp add: world_noprice_def)
  have p2: "getPositionPrices world_pricey [rec_ticker rec0] = Inr [''AAPL'' \<mapsto> 20000]"
    by (simp add: world_pricey_def)
  have c3: "choose_order world_down rec0 = Inr (PaperBuyQty ''AAPL'' 66)"
    by (simp add: choose_order_def world_down_def world0_def rec0_def Let_def)
  have s3: "submitOrder world_down (PaperBuyQty ''AAPL'' 66) = Inl (AlpacaFailure ''HTTP 403'')"
    by (simp add: world_down_def)
  from failed_approval_stays_pending [OF r1 row pending f1, of Map.empty] buy p1
  have a: "response (handleApprove host0 world_noprice (store_of rec0) ''r1'')
             = Inr (text_response (PriceUnavailable ''AAPL'') 500)
           \<and> store (handleApprove host0 world_noprice (store_of rec0) ''r1'') = store_of rec0"
    by simp
  from failed_approval_stays_pending [OF r2 row pending f2, of "[''AAPL'' \<mapsto> 20000]" 20000] buy p2
  have b: "response (handleApprove host0 world_pricey (store_of rec0) ''r1'')
             = Inr (text_response (NotionalTooSmall 10000 ''AAPL'' 20000) 400)
           \<and> store (handleApprove host0 world_pricey (store_of rec0) ''r1'') = store_of rec0"
    by simp
  from failed_approval_stays_pending [OF r3 row pending f3,
      of _ _ "PaperBuyQty ''AAPL'' 66" "AlpacaFailure ''HTTP 403''"] buy c3 s3
  have c: "response (handleApprove host0 world_down (store_of rec0) ''r1'')
             = Inr (text_response (OrderSubmissionFailed (AlpacaFailure ''HTTP 403'')) 500)
           \<and> store (handleApprove host0 world_down (store_of rec0) ''r1'') = store_of rec0
           \<and> status_in (store_of rec0) ''r1'' = Some PENDING"
    by simp
  from a b c show ?thesis by simp
qed


end
